theory Spec2Isabelle
  imports Complex_Main "HOL-Library.Word"
begin

section \<open>Data model\<close>

text \<open>
  Remote product payloads are JSON objects, held in Python as dictionaries. A dictionary
  is an association list read with \<open>map_of\<close>; Python's \<open>None\<close> and JSON's
  \<open>null\<close> are the same value \<open>JNull\<close>. JSON numbers are restricted to integers.
\<close>

datatype json =
    JNull
  | JBool bool
  | JInt int
  | JStr string
  | JList "json list"
  | JObj "(string \<times> json) list"

type_synonym payload = "(string \<times> json) list"
type_synonym timestamp = nat
type_synonym vector = "real list"

text \<open>Every exception carries its message; \<open>str_of\<close> is Python's \<open>str(e)\<close>.\<close>

datatype error =
    KeyError string
  | IntegrityError string
  | DataError string
  | RequestError string
  | ValueError string
  | TypeError string
  | UnicodeEncodeError string
  | ProviderError string
  | InvalidToken string

fun str_of :: "error \<Rightarrow> string" where
  "str_of (KeyError m) = m"
| "str_of (IntegrityError m) = m"
| "str_of (DataError m) = m"
| "str_of (RequestError m) = m"
| "str_of (ValueError m) = m"
| "str_of (TypeError m) = m"
| "str_of (UnicodeEncodeError m) = m"
| "str_of (ProviderError m) = m"
| "str_of (InvalidToken m) = m"

text \<open>\<open>d.get(k)\<close> and \<open>d.get(k, default)\<close>.\<close>

definition dict_get :: "payload \<Rightarrow> string \<Rightarrow> json" where
  "dict_get d k = (case map_of d k of None \<Rightarrow> JNull | Some v \<Rightarrow> v)"

definition dict_get_default :: "payload \<Rightarrow> string \<Rightarrow> json \<Rightarrow> json" where
  "dict_get_default d k dflt = (case map_of d k of None \<Rightarrow> dflt | Some v \<Rightarrow> v)"

text \<open>
  The table \<open>woocommerce_stores\<close> of models.py. The two credential columns hold
  ciphertext (\<open>None\<close> is SQL NULL).
\<close>

record store =
  store_pk :: int
  store_merchant_id :: string
  store_url :: string
  consumer_key_col :: "string option"
  consumer_secret_col :: "string option"
  is_active :: int
  is_verified :: int
  last_synced_at :: "timestamp option"

text \<open>
  The table \<open>products\<close> of models.py. String and JSONB columns hold the JSON value
  that was written (\<open>JNull\<close> is SQL NULL); \<open>wc_product_id\<close> is \<open>BigInteger\<close>,
  unique and not nullable.
\<close>

record product =
  product_pk :: int
  wc_product_id :: int
  store_id :: int
  merchant_id :: string
  name :: json
  slug :: json
  sku :: json
  type_col :: json
  status :: json
  price :: json
  regular_price :: json
  sale_price :: json
  categories :: json
  tags :: json
  wc_created_at :: "timestamp option"
  wc_modified_at :: "timestamp option"
  raw_data :: payload
  embedding :: "vector option"
  is_deleted :: int
  deleted_at :: "timestamp option"
  synced_at :: "timestamp option"
  created_at :: "timestamp option"
  updated_at :: "timestamp option"

text \<open>
  The committed database state: the two tables and the sequence behind the
  auto-incremented primary key of \<open>products\<close>.
\<close>

record db =
  stores :: "store list"
  products :: "product list"
  next_product_pk :: int

section \<open>The environment: settings and external collaborators\<close>

text \<open>
  The embedding service of embedding_service.py. What the text of a product is and what
  the remote model answers are left open: \<open>prepare_product_text\<close> may raise on
  a payload of the wrong shape, \<open>get_embeddings\<close> is the call to the provider.
\<close>

record emb_service =
  prepare_product_text :: "payload \<Rightarrow> error + string"
  get_embeddings :: "string \<Rightarrow> error + vector list"

text \<open>
  One page of the remote product listing: the items and the two pagination headers
  (\<open>None\<close> when the header is absent), or a request failure.
\<close>

type_synonym page_response = "error + (payload list \<times> int option \<times> int option)"

text \<open>
  The fields of \<open>WooCommerceClient\<close> that identify the remote store and the
  caller. \<open>get_encryption\<close> below is the process-wide cipher: \<open>Fernet.decrypt\<close>
  followed by \<open>decode\<close>, which raises on a token it cannot authenticate; fetching
  the cipher itself raises when the key is missing or malformed.
\<close>

record client =
  client_store_url :: string
  client_consumer_key :: "string option"
  client_consumer_secret :: "string option"

record env =
  ENABLE_EMBEDDINGS :: bool
  WC_PRODUCTS_PER_PAGE :: int
  fromisoformat :: "string \<Rightarrow> timestamp option"
  get_embedding_service :: "error + emb_service"
  get_encryption :: "error + (string \<Rightarrow> error + string)"
  request_products :: "client \<Rightarrow> int \<Rightarrow> int \<Rightarrow> page_response"

section \<open>Product parsing (product_sync.py)\<close>

text \<open>\<open>date_string.replace('Z', '+00:00')\<close>.\<close>

fun replace_Z :: "string \<Rightarrow> string" where
  "replace_Z [] = []"
| "replace_Z (c # cs) = (if c = CHR ''Z'' then ''+00:00'' @ replace_Z cs else c # replace_Z cs)"

text \<open>
  \<open>parse_datetime\<close>: a falsy value gives \<open>None\<close>; a value that is not a string has
  no \<open>replace\<close> (AttributeError) and a string that is not ISO 8601 raises ValueError,
  both caught and turned into \<open>None\<close>.
\<close>

definition parse_datetime :: "env \<Rightarrow> json \<Rightarrow> timestamp option" where
  "parse_datetime e date_string =
     (case date_string of
        JStr s \<Rightarrow> (if s = [] then None else fromisoformat e (replace_Z s))
      | _ \<Rightarrow> None)"

record parsed =
  pd_wc_product_id :: json
  pd_name :: json
  pd_slug :: json
  pd_sku :: json
  pd_type :: json
  pd_status :: json
  pd_price :: json
  pd_regular_price :: json
  pd_sale_price :: json
  pd_categories :: json
  pd_tags :: json
  pd_wc_created_at :: "timestamp option"
  pd_wc_modified_at :: "timestamp option"
  pd_raw_data :: payload

definition parse_woocommerce_product :: "env \<Rightarrow> payload \<Rightarrow> parsed" where
  "parse_woocommerce_product e product_data =
     \<lparr> pd_wc_product_id = dict_get product_data ''id'',
       pd_name = dict_get product_data ''name'',
       pd_slug = dict_get product_data ''slug'',
       pd_sku = dict_get product_data ''sku'',
       pd_type = dict_get product_data ''type'',
       pd_status = dict_get product_data ''status'',
       pd_price = dict_get product_data ''price'',
       pd_regular_price = dict_get product_data ''regular_price'',
       pd_sale_price = dict_get product_data ''sale_price'',
       pd_categories = dict_get_default product_data ''categories'' (JList []),
       pd_tags = dict_get_default product_data ''tags'' (JList []),
       pd_wc_created_at = parse_datetime e (dict_get product_data ''date_created''),
       pd_wc_modified_at = parse_datetime e (dict_get product_data ''date_modified''),
       pd_raw_data = product_data \<rparr>"

section \<open>Embedding generation (embedding_service.py)\<close>

text \<open>
  \<open>generate_embedding\<close>: no text gives \<open>None\<close>; otherwise the first vector the
  provider returns, \<open>None\<close> when it returns none; a provider failure is re-raised.
\<close>

definition generate_embedding :: "emb_service \<Rightarrow> string \<Rightarrow> error + vector option" where
  "generate_embedding svc text =
     (if text = [] then Inr None
      else case get_embeddings svc text of
             Inl err \<Rightarrow> Inl err
           | Inr embeddings \<Rightarrow>
               (case embeddings of [] \<Rightarrow> Inr None | v # _ \<Rightarrow> Inr (Some v)))"

text \<open>
  The body of the \<open>try\<close> block of \<open>upsert_product\<close>: fetch the service, prepare the
  text, generate the vector. Any of the three may raise.
\<close>

definition compute_embedding :: "env \<Rightarrow> payload \<Rightarrow> error + vector option" where
  "compute_embedding e product_data =
     (case get_embedding_service e of
        Inl err \<Rightarrow> Inl err
      | Inr emb_service \<Rightarrow>
          (case prepare_product_text emb_service product_data of
             Inl err \<Rightarrow> Inl err
           | Inr product_text \<Rightarrow> generate_embedding emb_service product_text))"

text \<open>
  The \<open>'embedding'\<close> entry of \<open>parsed_data\<close> after the \<open>try\<close> block: \<open>None\<close>
  when the key was never set (embeddings not requested, disabled, or the block raised
  and the exception was swallowed), \<open>Some v\<close> when it was set to \<open>v\<close>, where \<open>v\<close>
  itself may be Python's \<open>None\<close>.
\<close>

definition embedding_entry :: "env \<Rightarrow> payload \<Rightarrow> bool \<Rightarrow> vector option option" where
  "embedding_entry e product_data gen_embedding =
     (if gen_embedding \<and> ENABLE_EMBEDDINGS e then
        (case compute_embedding e product_data of
           Inl err \<Rightarrow> None
         | Inr v \<Rightarrow> Some v)
      else None)"

text \<open>\<open>if parsed_data.get('embedding')\<close>: a vector that is neither \<open>None\<close> nor empty.\<close>

fun new_embedding :: "vector option option \<Rightarrow> vector option" where
  "new_embedding (Some (Some v)) = (if v = [] then None else Some v)"
| "new_embedding _ = None"

section \<open>The atomic upsert (product_sync.py)\<close>

text \<open>The \<open>set_\<close> clause of \<open>ON CONFLICT (wc_product_id) DO UPDATE\<close>.\<close>

definition on_conflict_update :: "timestamp \<Rightarrow> parsed \<Rightarrow> vector option option \<Rightarrow> product \<Rightarrow> product" where
  "on_conflict_update now parsed_data emb r =
     (let r1 = r \<lparr> name := pd_name parsed_data,
                   slug := pd_slug parsed_data,
                   sku := pd_sku parsed_data,
                   type_col := pd_type parsed_data,
                   status := pd_status parsed_data,
                   price := pd_price parsed_data,
                   regular_price := pd_regular_price parsed_data,
                   sale_price := pd_sale_price parsed_data,
                   categories := pd_categories parsed_data,
                   tags := pd_tags parsed_data,
                   wc_modified_at := pd_wc_modified_at parsed_data,
                   raw_data := pd_raw_data parsed_data,
                   is_deleted := 0,
                   deleted_at := None,
                   synced_at := Some now,
                   updated_at := Some now \<rparr>
      in case new_embedding emb of
           None \<Rightarrow> r1
         | Some v \<Rightarrow> r1 \<lparr> embedding := Some v \<rparr>)"

text \<open>
  The row proposed by \<open>insert(Product).values(**parsed_data)\<close>, with the column
  defaults of models.py: \<open>is_deleted\<close> 0, \<open>synced_at\<close> and \<open>created_at\<close> the
  server's \<open>now()\<close>, the others NULL.
\<close>

definition inserted_row :: "timestamp \<Rightarrow> int \<Rightarrow> int \<Rightarrow> store \<Rightarrow> parsed \<Rightarrow> vector option option \<Rightarrow> product" where
  "inserted_row now pk n st parsed_data emb =
     \<lparr> product_pk = pk,
       wc_product_id = n,
       store_id = store_pk st,
       merchant_id = store_merchant_id st,
       name = pd_name parsed_data,
       slug = pd_slug parsed_data,
       sku = pd_sku parsed_data,
       type_col = pd_type parsed_data,
       status = pd_status parsed_data,
       price = pd_price parsed_data,
       regular_price = pd_regular_price parsed_data,
       sale_price = pd_sale_price parsed_data,
       categories = pd_categories parsed_data,
       tags = pd_tags parsed_data,
       wc_created_at = pd_wc_created_at parsed_data,
       wc_modified_at = pd_wc_modified_at parsed_data,
       raw_data = pd_raw_data parsed_data,
       embedding = (case emb of None \<Rightarrow> None | Some v \<Rightarrow> v),
       is_deleted = 0,
       deleted_at = None,
       synced_at = Some now,
       created_at = Some now,
       updated_at = None \<rparr>"

text \<open>
  What the \<open>BigInteger\<close>, not nullable column \<open>wc_product_id\<close> accepts: NULL
  violates the constraint, an integer outside 64 bits or a value of another type is a
  data error.
\<close>

definition bigint_column :: "json \<Rightarrow> error + int" where
  "bigint_column v =
     (case v of
        JNull \<Rightarrow> Inl (IntegrityError ''null value in column wc_product_id'')
      | JInt n \<Rightarrow>
          (if - (2 ^ 63) \<le> n \<and> n < 2 ^ 63 then Inr n
           else Inl (DataError ''bigint out of range''))
      | _ \<Rightarrow> Inl (DataError ''invalid input for type bigint''))"

text \<open>
  \<open>db.execute(stmt); db.commit()\<close>: the insert with its conflict clause, as one
  atomic statement on the committed state. On a conflict on \<open>wc_product_id\<close> the
  existing row is updated in place, otherwise the proposed row is appended.
\<close>

definition execute_upsert ::
  "timestamp \<Rightarrow> db \<Rightarrow> store \<Rightarrow> parsed \<Rightarrow> vector option option \<Rightarrow> error + db" where
  "execute_upsert now d st parsed_data emb =
     (case bigint_column (pd_wc_product_id parsed_data) of
        Inl err \<Rightarrow> Inl err
      | Inr n \<Rightarrow>
          (if \<exists>r \<in> set (products d). wc_product_id r = n then
             Inr (d \<lparr> products :=
                        map (\<lambda>r. if wc_product_id r = n
                                 then on_conflict_update now parsed_data emb r else r)
                            (products d) \<rparr>)
           else
             Inr (d \<lparr> products :=
                        products d @ [inserted_row now (next_product_pk d) n st parsed_data emb],
                      next_product_pk := next_product_pk d + 1 \<rparr>)))"

text \<open>\<open>db.query(Product).filter(Product.wc_product_id == v).first()\<close>.\<close>

definition query_by_wc_id :: "db \<Rightarrow> json \<Rightarrow> product option" where
  "query_by_wc_id d v =
     (case v of
        JInt n \<Rightarrow> find (\<lambda>r. wc_product_id r = n) (products d)
      | _ \<Rightarrow> None)"

text \<open>The same query narrowed to one tenant (\<open>Product.merchant_id == merchant_id\<close>).\<close>

definition query_by_wc_id_merchant :: "db \<Rightarrow> json \<Rightarrow> string \<Rightarrow> product option" where
  "query_by_wc_id_merchant d v m =
     (case v of
        JInt n \<Rightarrow> find (\<lambda>r. wc_product_id r = n \<and> merchant_id r = m) (products d)
      | _ \<Rightarrow> None)"

definition upsert_product ::
  "env \<Rightarrow> timestamp \<Rightarrow> db \<Rightarrow> store \<Rightarrow> payload \<Rightarrow> bool \<Rightarrow> error + (db \<times> product option)" where
  "upsert_product e now d st product_data gen_embedding =
     (let parsed_data = parse_woocommerce_product e product_data;
          emb = embedding_entry e product_data gen_embedding
      in case execute_upsert now d st parsed_data emb of
           Inl err \<Rightarrow> Inl err
         | Inr d' \<Rightarrow> Inr (d', query_by_wc_id d' (pd_wc_product_id parsed_data)))"

text \<open>
  \<open>soft_delete_product\<close>: the row of that tenant is marked; the ORM update also fires
  the \<open>onupdate\<close> defaults of \<open>synced_at\<close> and \<open>updated_at\<close>.
\<close>

definition mark_deleted :: "timestamp \<Rightarrow> product \<Rightarrow> product" where
  "mark_deleted now r =
     r \<lparr> is_deleted := 1, deleted_at := Some now, status := JStr ''deleted'',
         synced_at := Some now, updated_at := Some now \<rparr>"

text \<open>The object returned by \<open>.first()\<close> is the one that is mutated.\<close>

fun update_first :: "('a \<Rightarrow> bool) \<Rightarrow> ('a \<Rightarrow> 'a) \<Rightarrow> 'a list \<Rightarrow> 'a list" where
  "update_first P f [] = []"
| "update_first P f (x # xs) = (if P x then f x # xs else x # update_first P f xs)"

definition soft_delete_product :: "timestamp \<Rightarrow> db \<Rightarrow> int \<Rightarrow> string \<Rightarrow> db \<times> bool" where
  "soft_delete_product now d n m =
     (case find (\<lambda>r. wc_product_id r = n \<and> merchant_id r = m) (products d) of
        None \<Rightarrow> (d, False)
      | Some p \<Rightarrow>
          (d \<lparr> products :=
                 update_first (\<lambda>r. wc_product_id r = n \<and> merchant_id r = m)
                   (mark_deleted now) (products d) \<rparr>, True))"

section \<open>Credentials (encryption.py, models.py)\<close>

text \<open>
  \<open>TokenEncryption.decrypt\<close>: an empty or missing text is returned as it is; a
  failure of the cipher is re-raised as ValueError.
\<close>

definition decrypt :: "(string \<Rightarrow> error + string) \<Rightarrow> string option \<Rightarrow> error + string option" where
  "decrypt cipher encrypted_text =
     (case encrypted_text of
        None \<Rightarrow> Inr None
      | Some t \<Rightarrow>
          (if t = [] then Inr (Some t)
           else case cipher t of
                  Inl err \<Rightarrow> Inl (ValueError (''Failed to decrypt credential: '' @ str_of err))
                | Inr plain \<Rightarrow> Inr (Some plain)))"

text \<open>
  The read accessor shared by the hybrid properties \<open>consumer_key\<close> and
  \<open>consumer_secret\<close> of \<open>WooCommerceStore\<close>: every exception becomes \<open>None\<close>.
\<close>

definition read_credential :: "env \<Rightarrow> string option \<Rightarrow> string option" where
  "read_credential e col =
     (case col of
        None \<Rightarrow> None
      | Some t \<Rightarrow>
          (if t = [] then None
           else case get_encryption e of
                  Inl err \<Rightarrow> None
                | Inr cipher \<Rightarrow>
                    (case decrypt cipher (Some t) of
                       Inl err \<Rightarrow> None
                     | Inr plain \<Rightarrow> plain)))"

definition consumer_key :: "env \<Rightarrow> store \<Rightarrow> string option" where
  "consumer_key e st = read_credential e (consumer_key_col st)"

definition consumer_secret :: "env \<Rightarrow> store \<Rightarrow> string option" where
  "consumer_secret e st = read_credential e (consumer_secret_col st)"

section \<open>The remote store client (woocommerce_client.py)\<close>

text \<open>\<open>store_url.rstrip('/')\<close>.\<close>

definition rstrip_slash :: "string \<Rightarrow> string" where
  "rstrip_slash s = rev (dropWhile (\<lambda>c. c = CHR ''/'') (rev s))"

definition WooCommerceClient :: "env \<Rightarrow> store \<Rightarrow> client" where
  "WooCommerceClient e st =
     \<lparr> client_store_url = rstrip_slash (store_url st),
       client_consumer_key = consumer_key e st,
       client_consumer_secret = consumer_secret e st \<rparr>"

text \<open>
  \<open>get_products\<close>: the page size sent is clamped to 100; the totals are read from
  the headers, 0 when a header is absent.
\<close>

definition get_products :: "env \<Rightarrow> client \<Rightarrow> int \<Rightarrow> int \<Rightarrow> error + (payload list \<times> int \<times> int)" where
  "get_products e c page per_page =
     (case request_products e c page (min per_page 100) of
        Inl err \<Rightarrow> Inl err
      | Inr (data, total_header, total_pages_header) \<Rightarrow>
          Inr (data,
               (case total_header of None \<Rightarrow> 0 | Some t \<Rightarrow> t),
               (case total_pages_header of None \<Rightarrow> 0 | Some t \<Rightarrow> t)))"

section \<open>Bulk sync (product_sync.py)\<close>

record stats =
  synced_count :: int
  created_count :: int
  updated_count :: int
  failed_count :: int

record total_stats = stats +
  sync_status :: string
  total_products :: int
  pages_fetched :: int
  sync_error :: "string option"

text \<open>
  \<open>sync_products_batch\<close>: a product whose upsert raises is counted as failed and
  the session rolled back, which leaves the committed state as it was.
\<close>

fun sync_products_batch ::
  "env \<Rightarrow> timestamp \<Rightarrow> store \<Rightarrow> payload list \<Rightarrow> db \<times> stats \<Rightarrow> db \<times> stats" where
  "sync_products_batch e now st [] acc = acc"
| "sync_products_batch e now st (product_data # rest) (d, s) =
     (let existing = query_by_wc_id d (dict_get product_data ''id'')
      in case upsert_product e now d st product_data (ENABLE_EMBEDDINGS e) of
           Inl err \<Rightarrow>
             sync_products_batch e now st rest
               (d, s \<lparr> failed_count := failed_count s + 1 \<rparr>)
         | Inr (d', p) \<Rightarrow>
             sync_products_batch e now st rest
               (d', (if existing \<noteq> None
                     then s \<lparr> synced_count := synced_count s + 1,
                              updated_count := updated_count s + 1 \<rparr>
                     else s \<lparr> synced_count := synced_count s + 1,
                              created_count := created_count s + 1 \<rparr>)))"

definition empty_stats :: stats where
  "empty_stats = \<lparr> synced_count = 0, created_count = 0, updated_count = 0, failed_count = 0 \<rparr>"

definition initial_total_stats :: total_stats where
  "initial_total_stats =
     \<lparr> synced_count = 0, created_count = 0, updated_count = 0, failed_count = 0,
       sync_status = ''completed'', total_products = 0, pages_fetched = 0,
       sync_error = None \<rparr>"

definition accumulate :: "total_stats \<Rightarrow> stats \<Rightarrow> total_stats" where
  "accumulate ts bs =
     ts \<lparr> synced_count := synced_count ts + synced_count bs,
          created_count := created_count ts + created_count bs,
          updated_count := updated_count ts + updated_count bs,
          failed_count := failed_count ts + failed_count bs,
          pages_fetched := pages_fetched ts + 1 \<rparr>"

text \<open>
  The \<open>while True\<close> loop of \<open>fetch_all_products_from_woocommerce\<close>. Nothing bounds
  the number of pages a remote store may answer with, so the loop takes fuel: \<open>None\<close>
  is a loop still running when the fuel is spent. A finished loop gives the exception
  that left it (if any), the page counter, the database and the statistics.
\<close>

fun fetch_pages ::
  "nat \<Rightarrow> env \<Rightarrow> timestamp \<Rightarrow> store \<Rightarrow> client \<Rightarrow> int \<Rightarrow> int \<Rightarrow> db \<Rightarrow> total_stats
     \<Rightarrow> (error option \<times> int \<times> db \<times> total_stats) option" where
  "fetch_pages 0 e now st c per_page page d ts = None"
| "fetch_pages (Suc fuel) e now st c per_page page d ts =
     (case get_products e c page per_page of
        Inl err \<Rightarrow> Some (Some err, page, d, ts)
      | Inr (products_page, total_count, total_pages) \<Rightarrow>
          (if products_page = [] then Some (None, page, d, ts)
           else
             let ts1 = (if page = 1 then ts \<lparr> total_products := total_count \<rparr> else ts);
                 (d', batch_stats) = sync_products_batch e now st products_page (d, empty_stats);
                 ts2 = accumulate ts1 batch_stats
             in if page \<ge> total_pages \<or> int (length products_page) < per_page
                then Some (None, page, d', ts2)
                else fetch_pages fuel e now st c per_page (page + 1) d' ts2))"

text \<open>\<open>store.last_synced_at = now; db.commit()\<close>.\<close>

definition set_last_synced :: "timestamp \<Rightarrow> store \<Rightarrow> db \<Rightarrow> db" where
  "set_last_synced now st d =
     d \<lparr> stores := map (\<lambda>s. if store_pk s = store_pk st
                              then s \<lparr> last_synced_at := Some now \<rparr> else s) (stores d) \<rparr>"

definition fetch_all_products_from_woocommerce ::
  "nat \<Rightarrow> env \<Rightarrow> timestamp \<Rightarrow> db \<Rightarrow> store \<Rightarrow> (db \<times> total_stats) option" where
  "fetch_all_products_from_woocommerce fuel e now d st =
     (case fetch_pages fuel e now st (WooCommerceClient e st) (WC_PRODUCTS_PER_PAGE e) 1 d
             initial_total_stats of
        None \<Rightarrow> None
      | Some (Some err, page, d', ts) \<Rightarrow>
          Some (d', ts \<lparr> sync_status := ''failed'', sync_error := Some (str_of err) \<rparr>)
      | Some (None, page, d', ts) \<Rightarrow> Some (set_last_synced now st d', ts))"

section \<open>Reconciliation (routers/sync.py)\<close>

record reconciliation_result =
  result_status :: string
  products_checked :: int
  products_added :: int
  products_updated :: int
  products_deleted :: int
  errors :: "string list"

definition initial_result :: reconciliation_result where
  "initial_result =
     \<lparr> result_status = ''completed'', products_checked = 0, products_added = 0,
       products_updated = 0, products_deleted = 0, errors = [] \<rparr>"

text \<open>
  The state of the walk: the database, the result so far, and the remote IDs seen
  (the Python set \<open>wc_product_ids\<close>).
\<close>

type_synonym walk_state = "db \<times> reconciliation_result \<times> json list"

text \<open>
  The \<open>for product in products\<close> loop over one page. \<open>product['id']\<close> raises
  KeyError when the key is missing; an exception of \<open>upsert_product\<close> leaves the loop.
\<close>

fun reconcile_page ::
  "env \<Rightarrow> timestamp \<Rightarrow> store \<Rightarrow> payload list \<Rightarrow> walk_state \<Rightarrow> error option \<times> walk_state" where
  "reconcile_page e now st [] ws = (None, ws)"
| "reconcile_page e now st (product # rest) (d, result, wc_product_ids) =
     (case map_of product ''id'' of
        None \<Rightarrow> (Some (KeyError ''id''), (d, result, wc_product_ids))
      | Some pid \<Rightarrow>
          (let ids' = pid # wc_product_ids;
               result1 = result \<lparr> products_checked := products_checked result + 1 \<rparr>
           in case query_by_wc_id_merchant d pid (store_merchant_id st) of
                None \<Rightarrow>
                  (case upsert_product e now d st product False of
                     Inl err \<Rightarrow> (Some err, (d, result1, ids'))
                   | Inr (d', p) \<Rightarrow>
                       reconcile_page e now st rest
                         (d', result1 \<lparr> products_added := products_added result1 + 1 \<rparr>, ids'))
              | Some existing \<Rightarrow>
                  (if is_deleted existing \<noteq> 0 then
                     (case upsert_product e now d st product False of
                        Inl err \<Rightarrow> (Some err, (d, result1, ids'))
                      | Inr (d', p) \<Rightarrow>
                          reconcile_page e now st rest
                            (d', result1 \<lparr> products_updated := products_updated result1 + 1 \<rparr>,
                             ids'))
                   else reconcile_page e now st rest (d, result1, ids'))))"

text \<open>
  The \<open>while True\<close> loop over the pages, with fuel as in \<open>fetch_pages\<close>. The page size
  asked for is the constant 100.
\<close>

fun reconcile_walk ::
  "nat \<Rightarrow> env \<Rightarrow> timestamp \<Rightarrow> store \<Rightarrow> client \<Rightarrow> int \<Rightarrow> walk_state
     \<Rightarrow> (error option \<times> walk_state) option" where
  "reconcile_walk 0 e now st c page ws = None"
| "reconcile_walk (Suc fuel) e now st c page ws =
     (case get_products e c page 100 of
        Inl err \<Rightarrow> Some (Some err, ws)
      | Inr (products_page, total_count, total_pages) \<Rightarrow>
          (if products_page = [] then Some (None, ws)
           else case reconcile_page e now st products_page ws of
                  (Some err, ws') \<Rightarrow> Some (Some err, ws')
                | (None, ws') \<Rightarrow>
                    (if page \<ge> total_pages then Some (None, ws')
                     else reconcile_walk fuel e now st c (page + 1) ws')))"

text \<open>
  The second pass: the active rows of the tenant, read once after the walk, are
  soft-deleted when their remote ID was not seen.
\<close>

fun delete_missing ::
  "timestamp \<Rightarrow> string \<Rightarrow> json list \<Rightarrow> product list \<Rightarrow> db \<times> reconciliation_result
     \<Rightarrow> db \<times> reconciliation_result" where
  "delete_missing now m wc_product_ids [] acc = acc"
| "delete_missing now m wc_product_ids (p # ps) (d, result) =
     (if JInt (wc_product_id p) \<notin> set wc_product_ids then
        delete_missing now m wc_product_ids ps
          (fst (soft_delete_product now d (wc_product_id p) m),
           result \<lparr> products_deleted := products_deleted result + 1 \<rparr>)
      else delete_missing now m wc_product_ids ps (d, result))"

definition local_products :: "db \<Rightarrow> string \<Rightarrow> product list" where
  "local_products d m = filter (\<lambda>r. merchant_id r = m \<and> is_deleted r = 0) (products d)"

definition reconcile_products ::
  "nat \<Rightarrow> env \<Rightarrow> timestamp \<Rightarrow> db \<Rightarrow> store \<Rightarrow> (db \<times> reconciliation_result) option" where
  "reconcile_products fuel e now d st =
     (case reconcile_walk fuel e now st (WooCommerceClient e st) 1 (d, initial_result, []) of
        None \<Rightarrow> None
      | Some (Some err, (d', result, wc_product_ids)) \<Rightarrow>
          Some (d', result \<lparr> result_status := ''partial'',
                            errors := errors result @ [str_of err] \<rparr>)
      | Some (None, (d', result, wc_product_ids)) \<Rightarrow>
          Some (delete_missing now (store_merchant_id st) wc_product_ids
                  (local_products d' (store_merchant_id st)) (d', result)))"

section \<open>The daily job (scheduler.py)\<close>

text \<open>\<open>reconcile_store\<close> runs the bulk sync of the store and logs its counts.\<close>

definition reconcile_store :: "nat \<Rightarrow> env \<Rightarrow> timestamp \<Rightarrow> db \<Rightarrow> store \<Rightarrow> db option" where
  "reconcile_store fuel e now d st =
     map_option fst (fetch_all_products_from_woocommerce fuel e now d st)"

fun reconcile_stores :: "nat \<Rightarrow> env \<Rightarrow> timestamp \<Rightarrow> store list \<Rightarrow> db \<Rightarrow> db option" where
  "reconcile_stores fuel e now [] d = Some d"
| "reconcile_stores fuel e now (st # rest) d =
     (case reconcile_store fuel e now d st of
        None \<Rightarrow> None
      | Some d' \<Rightarrow> reconcile_stores fuel e now rest d')"

definition reconciliation_job :: "nat \<Rightarrow> env \<Rightarrow> timestamp \<Rightarrow> db \<Rightarrow> db option" where
  "reconciliation_job fuel e now d =
     reconcile_stores fuel e now
       (filter (\<lambda>s. is_active s = 1 \<and> is_verified s = 1) (stores d)) d"

section \<open>Vocabulary of the properties\<close>

text \<open>
  A row carries the mutable display fields and the raw payload of a remote payload:
  the columns the conflict clause of \<open>upsert_product\<close> writes from it.
\<close>

definition display_fields_match :: "env \<Rightarrow> payload \<Rightarrow> product \<Rightarrow> bool" where
  "display_fields_match e v p \<longleftrightarrow>
     name p = dict_get v ''name'' \<and>
     slug p = dict_get v ''slug'' \<and>
     sku p = dict_get v ''sku'' \<and>
     type_col p = dict_get v ''type'' \<and>
     status p = dict_get v ''status'' \<and>
     price p = dict_get v ''price'' \<and>
     regular_price p = dict_get v ''regular_price'' \<and>
     sale_price p = dict_get v ''sale_price'' \<and>
     categories p = dict_get_default v ''categories'' (JList []) \<and>
     tags p = dict_get_default v ''tags'' (JList []) \<and>
     wc_modified_at p = parse_datetime e (dict_get v ''date_modified'') \<and>
     raw_data p = v"

text \<open>The row stored for a remote product ID.\<close>

definition row_of :: "db \<Rightarrow> int \<Rightarrow> product option" where
  "row_of d n = find (\<lambda>r. wc_product_id r = n) (products d)"

text \<open>The unique index on \<open>wc_product_id\<close>.\<close>

definition unique_wc_ids :: "db \<Rightarrow> bool" where
  "unique_wc_ids d \<longleftrightarrow> distinct (map wc_product_id (products d))"

section \<open>Example data\<close>

definition no_dates :: "string \<Rightarrow> timestamp option" where
  "no_dates s = None"

definition empty_catalog :: "client \<Rightarrow> int \<Rightarrow> int \<Rightarrow> page_response" where
  "empty_catalog c page per_page = Inr ([], Some 0, Some 0)"

definition example_env :: env where
  "example_env =
     \<lparr> ENABLE_EMBEDDINGS = True,
       WC_PRODUCTS_PER_PAGE = 2,
       fromisoformat = no_dates,
       get_embedding_service = Inl (ValueError ''GCP_PROJECT_ID is required for embeddings''),
       get_encryption = Inl (ValueError ''ENCRYPTION_KEY environment variable is required''),
       request_products = empty_catalog \<rparr>"

definition store_a :: store where
  "store_a =
     \<lparr> store_pk = 1, store_merchant_id = ''merchant-a'', store_url = ''https://a.example/'',
       consumer_key_col = Some ''gAAAA-key-a'', consumer_secret_col = Some ''gAAAA-secret-a'',
       is_active = 1, is_verified = 1, last_synced_at = None \<rparr>"

definition store_b :: store where
  "store_b =
     \<lparr> store_pk = 2, store_merchant_id = ''merchant-b'', store_url = ''https://b.example'',
       consumer_key_col = Some ''gAAAA-key-b'', consumer_secret_col = Some ''gAAAA-secret-b'',
       is_active = 1, is_verified = 1, last_synced_at = None \<rparr>"

definition payload_v1 :: payload where
  "payload_v1 =
     [(''id'', JInt 7), (''name'', JStr ''Mug''), (''slug'', JStr ''mug''),
      (''sku'', JStr ''M-1''), (''type'', JStr ''simple''), (''status'', JStr ''publish''),
      (''price'', JStr ''9.00'')]"


definition empty_db :: db where
  "empty_db = \<lparr> stores = [store_a, store_b], products = [], next_product_pk = 1 \<rparr>"

definition row_of_a :: product where
  "row_of_a = inserted_row 10 1 7 store_a (parse_woocommerce_product example_env payload_v1) None"









section \<open>Vocabulary of pagination\<close>

text \<open>
  What one answered page means for the loop of the bulk sync: it goes on to the next
  page when the page has items, as many as the page size asked for, and is not the last
  page reported; it stops at the page otherwise.
\<close>

definition page_continues :: "env \<Rightarrow> client \<Rightarrow> int \<Rightarrow> int \<Rightarrow> bool" where
  "page_continues e c per_page page =
     (case get_products e c page per_page of
        Inl err \<Rightarrow> False
      | Inr (items, total_count, total_pages) \<Rightarrow>
          items \<noteq> [] \<and> page < total_pages \<and> per_page \<le> int (length items))"

definition page_stops :: "env \<Rightarrow> client \<Rightarrow> int \<Rightarrow> int \<Rightarrow> bool" where
  "page_stops e c per_page page =
     (case get_products e c page per_page of
        Inl err \<Rightarrow> False
      | Inr (items, total_count, total_pages) \<Rightarrow>
          items = [] \<or> total_pages \<le> page \<or> int (length items) < per_page)"

definition page_has_items :: "env \<Rightarrow> client \<Rightarrow> int \<Rightarrow> int \<Rightarrow> bool" where
  "page_has_items e c per_page page =
     (case get_products e c page per_page of
        Inl err \<Rightarrow> False
      | Inr (items, total_count, total_pages) \<Rightarrow> items \<noteq> [])"

definition product_8 :: payload where
  "product_8 = [(''id'', JInt 8), (''name'', JStr ''Plate''), (''status'', JStr ''publish'')]"

definition product_9 :: payload where
  "product_9 = [(''id'', JInt 9), (''name'', JStr ''Bowl''), (''status'', JStr ''publish'')]"



section \<open>Vocabulary of reconciliation\<close>

text \<open>
  The remote products the walk of \<open>reconcile_products\<close> enumerates from a page on:
  the items of the pages in order, up to the first empty page or the last reported one.
  \<open>None\<close> when a request fails or the fuel is spent first.
\<close>

fun remote_catalog :: "nat \<Rightarrow> env \<Rightarrow> client \<Rightarrow> int \<Rightarrow> payload list option" where
  "remote_catalog 0 e c page = None"
| "remote_catalog (Suc fuel) e c page =
     (case get_products e c page 100 of
        Inl err \<Rightarrow> None
      | Inr (items, total_count, total_pages) \<Rightarrow>
          (if items = [] then Some []
           else if page \<ge> total_pages then Some items
           else map_option ((@) items) (remote_catalog fuel e c (page + 1))))"

text \<open>A remote ID was seen among the enumerated products.\<close>

definition seen_in :: "payload list \<Rightarrow> int \<Rightarrow> bool" where
  "seen_in ps n \<longleftrightarrow> JInt n \<in> set (map (\<lambda>p. dict_get p ''id'') ps)"

section \<open>Example data for reconciliation\<close>

definition product_10 :: payload where
  "product_10 = [(''id'', JInt 10), (''name'', JStr ''Cup''), (''status'', JStr ''publish'')]"

definition row_8_deleted :: product where
  "row_8_deleted =
     mark_deleted 15 (inserted_row 10 2 8 store_a (parse_woocommerce_product example_env product_8) None)"

definition row_9 :: product where
  "row_9 = inserted_row 10 3 9 store_a (parse_woocommerce_product example_env product_9) None"

text \<open>
  Three local products of tenant \<open>merchant-a\<close>: 7 active, 8 soft-deleted, 9 active.
\<close>

definition db_three :: db where
  "db_three = empty_db \<lparr> products := [row_of_a, row_8_deleted, row_9], next_product_pk := 4 \<rparr>"






section \<open>Example data for the daily job\<close>

text \<open>
  The remote side of the daily job: the store at \<open>https://a.example\<close> lists the
  products 7, 8 and 10 on one page, every other store lists nothing.
\<close>

definition catalog_of_a :: "client \<Rightarrow> int \<Rightarrow> int \<Rightarrow> page_response" where
  "catalog_of_a c page per_page =
     (if client_store_url c = ''https://a.example'' \<and> page = 1
      then Inr ([payload_v1, product_8, product_10], Some 3, Some 1)
      else Inr ([], Some 0, Some 0))"

definition job_env :: env where
  "job_env = example_env \<lparr> request_products := catalog_of_a \<rparr>"

text \<open>
  No row that was active is missing or soft-deleted afterwards: each still has a row
  of its remote ID and tenant that is active.
\<close>

definition keeps_active :: "db \<Rightarrow> db \<Rightarrow> bool" where
  "keeps_active d d' \<longleftrightarrow>
     (\<forall>x \<in> set (products d). is_deleted x = 0 \<longrightarrow>
        (\<exists>x' \<in> set (products d').
           wc_product_id x' = wc_product_id x \<and> merchant_id x' = merchant_id x
           \<and> is_deleted x' = 0))"

section \<open>Example data for credentials\<close>

text \<open>A cipher that authenticates no token, and the process configured with it.\<close>

definition rejecting_cipher :: "string \<Rightarrow> error + string" where
  "rejecting_cipher t = Inl (InvalidToken [])"

definition corrupt_env :: env where
  "corrupt_env = example_env \<lparr> get_encryption := Inr rejecting_cipher \<rparr>"

section \<open>Webhook signatures (webhook_verification.py)\<close>

unbundle bit_operations_syntax

type_synonym u8 = "8 word"
type_synonym u32 = "32 word"

text \<open>
  Python's \<open>bytes\<close> is a list of octets; Python's \<open>str\<close> is a list of Unicode
  code points.
\<close>

type_synonym bytes = "u8 list"
type_synonym pystr = "nat list"

subsection \<open>SHA-256 and HMAC (\<open>hashlib.sha256\<close>, \<open>hmac.new(...).digest()\<close>)\<close>

definition K256 :: "u32 list" where
  "K256 = [
   0x428a2f98, 0x71374491, 0xb5c0fbcf, 0xe9b5dba5, 0x3956c25b, 0x59f111f1, 0x923f82a4, 0xab1c5ed5,
   0xd807aa98, 0x12835b01, 0x243185be, 0x550c7dc3, 0x72be5d74, 0x80deb1fe, 0x9bdc06a7, 0xc19bf174,
   0xe49b69c1, 0xefbe4786, 0x0fc19dc6, 0x240ca1cc, 0x2de92c6f, 0x4a7484aa, 0x5cb0a9dc, 0x76f988da,
   0x983e5152, 0xa831c66d, 0xb00327c8, 0xbf597fc7, 0xc6e00bf3, 0xd5a79147, 0x06ca6351, 0x14292967,
   0x27b70a85, 0x2e1b2138, 0x4d2c6dfc, 0x53380d13, 0x650a7354, 0x766a0abb, 0x81c2c92e, 0x92722c85,
   0xa2bfe8a1, 0xa81a664b, 0xc24b8b70, 0xc76c51a3, 0xd192e819, 0xd6990624, 0xf40e3585, 0x106aa070,
   0x19a4c116, 0x1e376c08, 0x2748774c, 0x34b0bcb5, 0x391c0cb3, 0x4ed8aa4a, 0x5b9cca4f, 0x682e6ff3,
   0x748f82ee, 0x78a5636f, 0x84c87814, 0x8cc70208, 0x90befffa, 0xa4506ceb, 0xbef9a3f7, 0xc67178f2]"

type_synonym state8 = "u32 \<times> u32 \<times> u32 \<times> u32 \<times> u32 \<times> u32 \<times> u32 \<times> u32"

definition H256 :: state8 where
  "H256 = (0x6a09e667, 0xbb67ae85, 0x3c6ef372, 0xa54ff53a,
           0x510e527f, 0x9b05688c, 0x1f83d9ab, 0x5be0cd19)"

definition rotr :: "nat \<Rightarrow> u32 \<Rightarrow> u32" where
  "rotr n x = drop_bit n x OR push_bit (32 - n) x"

definition ssig0 :: "u32 \<Rightarrow> u32" where
  "ssig0 x = rotr 7 x XOR rotr 18 x XOR drop_bit 3 x"

definition ssig1 :: "u32 \<Rightarrow> u32" where
  "ssig1 x = rotr 17 x XOR rotr 19 x XOR drop_bit 10 x"

definition bsig0 :: "u32 \<Rightarrow> u32" where
  "bsig0 x = rotr 2 x XOR rotr 13 x XOR rotr 22 x"

definition bsig1 :: "u32 \<Rightarrow> u32" where
  "bsig1 x = rotr 6 x XOR rotr 11 x XOR rotr 25 x"

definition ch :: "u32 \<Rightarrow> u32 \<Rightarrow> u32 \<Rightarrow> u32" where
  "ch x y z = (x AND y) XOR (NOT x AND z)"

definition maj :: "u32 \<Rightarrow> u32 \<Rightarrow> u32 \<Rightarrow> u32" where
  "maj x y z = (x AND y) XOR (x AND z) XOR (y AND z)"

definition be32 :: "u8 \<Rightarrow> u8 \<Rightarrow> u8 \<Rightarrow> u8 \<Rightarrow> u32" where
  "be32 a b c d = push_bit 24 (ucast a) OR push_bit 16 (ucast b) OR push_bit 8 (ucast c) OR ucast d"

fun words_of :: "bytes \<Rightarrow> u32 list" where
  "words_of (a # b # c # d # rest) = be32 a b c d # words_of rest"
| "words_of _ = []"

definition bytes_of_word :: "u32 \<Rightarrow> bytes" where
  "bytes_of_word w = [ucast (drop_bit 24 w), ucast (drop_bit 16 w), ucast (drop_bit 8 w), ucast w]"

text \<open>The length of the message in bits, as 8 octets, most significant first.\<close>

definition length_bytes :: "nat \<Rightarrow> bytes" where
  "length_bytes n =
     (let bits = (word_of_nat n :: 64 word) * 8
      in [ucast (drop_bit 56 bits), ucast (drop_bit 48 bits), ucast (drop_bit 40 bits),
          ucast (drop_bit 32 bits), ucast (drop_bit 24 bits), ucast (drop_bit 16 bits),
          ucast (drop_bit 8 bits), ucast bits])"

definition sha_pad :: "bytes \<Rightarrow> bytes" where
  "sha_pad m =
     m @ [0x80] @ replicate ((119 - length m mod 64) mod 64) 0 @ length_bytes (length m)"

definition round256 :: "state8 \<Rightarrow> u32 \<Rightarrow> u32 \<Rightarrow> state8" where
  "round256 s k w =
     (case s of (a, b, c, d, e, f, g, h) \<Rightarrow>
        let t1 = h + bsig1 e + ch e f g + k + w;
            t2 = bsig0 a + maj a b c
        in (t1 + t2, a, b, c, d + t1, e, f, g))"

text \<open>
  The 64 rounds over one block, one per round constant, with the message schedule kept
  as a window of 16 words.
\<close>

fun sha_rounds :: "u32 list \<Rightarrow> u32 list \<Rightarrow> state8 \<Rightarrow> state8" where
  "sha_rounds (k # ks) [w0, w1, w2, w3, w4, w5, w6, w7, w8, w9, w10, w11, w12, w13, w14, w15] s =
     sha_rounds ks [w1, w2, w3, w4, w5, w6, w7, w8, w9, w10, w11, w12, w13, w14, w15,
                    ssig1 w14 + w9 + ssig0 w1 + w0]
       (round256 s k w0)"
| "sha_rounds ks ws s = s"

definition sha_compress :: "state8 \<Rightarrow> bytes \<Rightarrow> state8" where
  "sha_compress hs block =
     (case hs of (h0, h1, h2, h3, h4, h5, h6, h7) \<Rightarrow>
        (case sha_rounds K256 (words_of block) hs of
           (a, b, c, d, e, f, g, h) \<Rightarrow>
             (h0 + a, h1 + b, h2 + c, h3 + d, h4 + e, h5 + f, h6 + g, h7 + h)))"

function sha_blocks :: "state8 \<Rightarrow> bytes \<Rightarrow> state8" where
  "sha_blocks hs m =
     (if m = [] then hs else sha_blocks (sha_compress hs (take 64 m)) (drop 64 m))"
  by pat_completeness auto
termination
  by (relation "measure (\<lambda>(hs, m). length m)") auto

declare sha_blocks.simps [simp del]

definition sha256 :: "bytes \<Rightarrow> bytes" where
  "sha256 m =
     (case sha_blocks H256 (sha_pad m) of
        (h0, h1, h2, h3, h4, h5, h6, h7) \<Rightarrow>
          concat (map bytes_of_word [h0, h1, h2, h3, h4, h5, h6, h7]))"

text \<open>HMAC with a block of 64 octets: a longer key is hashed first.\<close>

definition hmac_sha256 :: "bytes \<Rightarrow> bytes \<Rightarrow> bytes" where
  "hmac_sha256 key msg =
     (let k0 = (if length key > 64 then sha256 key else key);
          k = k0 @ replicate (64 - length k0) 0
      in sha256 (map (\<lambda>b. b XOR 0x5c) k @ sha256 (map (\<lambda>b. b XOR 0x36) k @ msg)))"

subsection \<open>\<open>str.encode('utf-8')\<close>\<close>

text \<open>
  One code point in UTF-8. A surrogate cannot be encoded (UnicodeEncodeError); a
  Python string holds no value above \<open>0x10FFFF\<close>.
\<close>

definition utf8_encode_char :: "nat \<Rightarrow> error + bytes" where
  "utf8_encode_char c =
     (if c < 0x80 then Inr [word_of_nat c]
      else if c < 0x800 then
        Inr [word_of_nat (0xC0 + c div 64), word_of_nat (0x80 + c mod 64)]
      else if 0xD800 \<le> c \<and> c \<le> 0xDFFF then
        Inl (UnicodeEncodeError ''surrogates not allowed'')
      else if c < 0x10000 then
        Inr [word_of_nat (0xE0 + c div 4096), word_of_nat (0x80 + (c div 64) mod 64),
             word_of_nat (0x80 + c mod 64)]
      else if c < 0x110000 then
        Inr [word_of_nat (0xF0 + c div 262144), word_of_nat (0x80 + (c div 4096) mod 64),
             word_of_nat (0x80 + (c div 64) mod 64), word_of_nat (0x80 + c mod 64)]
      else Inl (ValueError ''not a code point''))"

fun utf8_encode :: "pystr \<Rightarrow> error + bytes" where
  "utf8_encode [] = Inr []"
| "utf8_encode (c # cs) =
     (case utf8_encode_char c of
        Inl err \<Rightarrow> Inl err
      | Inr bs \<Rightarrow>
          (case utf8_encode cs of
             Inl err \<Rightarrow> Inl err
           | Inr rest \<Rightarrow> Inr (bs @ rest)))"

subsection \<open>\<open>base64.b64encode(...).decode('utf-8')\<close>\<close>

text \<open>The character of the standard alphabet for a value below 64, as its code point.\<close>

definition b64_char :: "nat \<Rightarrow> nat" where
  "b64_char i =
     (if i < 26 then 65 + i
      else if i < 52 then 97 + (i - 26)
      else if i < 62 then 48 + (i - 52)
      else if i = 62 then 43
      else 47)"

fun b64encode :: "bytes \<Rightarrow> pystr" where
  "b64encode [] = []"
| "b64encode [a] =
     [b64_char (unat a div 4), b64_char ((unat a mod 4) * 16), 61, 61]"
| "b64encode [a, b] =
     [b64_char (unat a div 4), b64_char ((unat a mod 4) * 16 + unat b div 16),
      b64_char ((unat b mod 16) * 4), 61]"
| "b64encode (a # b # c # rest) =
     [b64_char (unat a div 4), b64_char ((unat a mod 4) * 16 + unat b div 16),
      b64_char ((unat b mod 16) * 4 + unat c div 64), b64_char (unat c mod 64)]
     @ b64encode rest"

subsection \<open>\<open>hmac.compare_digest\<close> and the verification\<close>

text \<open>
  On two strings \<open>compare_digest\<close> raises TypeError unless both are ASCII; otherwise
  it tells whether they are equal, in time that does not depend on where they differ.
\<close>

definition compare_digest :: "pystr \<Rightarrow> pystr \<Rightarrow> error + bool" where
  "compare_digest a b =
     (if list_all (\<lambda>c. c < 128) a \<and> list_all (\<lambda>c. c < 128) b then Inr (a = b)
      else Inl (TypeError ''comparing strings with non-ASCII characters is not supported''))"

text \<open>The body of the \<open>try\<close> block: the expected signature, then the comparison.\<close>

definition expected_signature :: "bytes \<Rightarrow> pystr \<Rightarrow> error + pystr" where
  "expected_signature payload secret =
     (case utf8_encode secret of
        Inl err \<Rightarrow> Inl err
      | Inr key \<Rightarrow> Inr (b64encode (hmac_sha256 key payload)))"

definition verify_woocommerce_webhook :: "bytes \<Rightarrow> pystr option \<Rightarrow> pystr option \<Rightarrow> bool" where
  "verify_woocommerce_webhook payload signature secret =
     (case (signature, secret) of
        (Some sig, Some sec) \<Rightarrow>
          (if sig = [] \<or> sec = [] then False
           else case expected_signature payload sec of
                  Inl err \<Rightarrow> False
                | Inr expected \<Rightarrow>
                    (case compare_digest expected sig of
                       Inl err \<Rightarrow> False
                     | Inr is_valid \<Rightarrow> is_valid))
      | _ \<Rightarrow> False)"

text \<open>The secret \<open>s3cr3t\<close>, a payload of five octets and the payload with one octet changed.\<close>

definition example_secret :: pystr where
  "example_secret = [115, 51, 99, 114, 51, 116]"

definition example_payload :: bytes where
  "example_payload = [123, 34, 105, 100, 34]"

definition altered_payload :: bytes where
  "altered_payload = [123, 34, 105, 101, 34]"

section \<open>Properties of the upsert\<close>

subsection \<open>Lists and rows\<close>

lemma find_map_update:
  assumes "\<And>r. P (f r) = P r"
  shows "find P (map (\<lambda>r. if P r then f r else r) xs) = map_option f (find P xs)"
  using assms by (induction xs) auto

lemma wc_id_on_conflict: "wc_product_id (on_conflict_update now pd emb r) = wc_product_id r"
  by (simp add: on_conflict_update_def Let_def split: option.splits)

lemma bigint_column_Inr: "bigint_column v = Inr n \<Longrightarrow> v = JInt n"
  by (auto simp: bigint_column_def split: json.splits if_splits)

lemma find_exists: "(\<exists>r \<in> set xs. P r) \<longleftrightarrow> find P xs \<noteq> None"
  by (induction xs) auto

lemma find_snoc: "find P (xs @ [x]) = (case find P xs of None \<Rightarrow> (if P x then Some x else None) | Some y \<Rightarrow> Some y)"
  by (induction xs) auto

lemma upsert_conflict:
  assumes "bigint_column (dict_get v ''id'') = Inr n"
      and "row_of d n = Some r"
  shows "upsert_product e now d st v g =
           Inr (d \<lparr> products := map (\<lambda>r. if wc_product_id r = n
                      then on_conflict_update now (parse_woocommerce_product e v) (embedding_entry e v g) r
                      else r) (products d) \<rparr>,
                Some (on_conflict_update now (parse_woocommerce_product e v) (embedding_entry e v g) r))"
proof -
  have id: "pd_wc_product_id (parse_woocommerce_product e v) = JInt n"
    using bigint_column_Inr[OF assms(1)] by (simp add: parse_woocommerce_product_def)
  have col: "bigint_column (JInt n) = Inr n"
    using assms(1) bigint_column_Inr[OF assms(1)] by simp
  have ex: "\<exists>r \<in> set (products d). wc_product_id r = n"
    using assms(2) by (simp add: find_exists row_of_def)
  show ?thesis
    using ex assms(2)
    by (simp add: upsert_product_def execute_upsert_def Let_def query_by_wc_id_def id col
                  find_map_update wc_id_on_conflict row_of_def)
qed

lemma upsert_insert:
  assumes "bigint_column (dict_get v ''id'') = Inr n"
      and "row_of d n = None"
  shows "upsert_product e now d st v g =
           Inr (d \<lparr> products := products d @
                       [inserted_row now (next_product_pk d) n st (parse_woocommerce_product e v) (embedding_entry e v g)],
                    next_product_pk := next_product_pk d + 1 \<rparr>,
                Some (inserted_row now (next_product_pk d) n st (parse_woocommerce_product e v) (embedding_entry e v g)))"
proof -
  have id: "pd_wc_product_id (parse_woocommerce_product e v) = JInt n"
    using bigint_column_Inr[OF assms(1)] by (simp add: parse_woocommerce_product_def)
  have col: "bigint_column (JInt n) = Inr n"
    using assms(1) bigint_column_Inr[OF assms(1)] by simp
  have ex: "\<not> (\<exists>r \<in> set (products d). wc_product_id r = n)"
    using assms(2) by (simp add: find_exists row_of_def)
  have w: "wc_product_id (inserted_row now pk n st pd emb) = n" for pk pd emb
    by (simp add: inserted_row_def)
  show ?thesis
    using ex assms(2)
    by (simp add: upsert_product_def execute_upsert_def Let_def query_by_wc_id_def id col
                  find_snoc w row_of_def)
qed

lemma upsert_error:
  assumes "bigint_column (dict_get v ''id'') = Inl err"
  shows "upsert_product e now d st v g = Inl err"
  using assms by (simp add: upsert_product_def execute_upsert_def Let_def parse_woocommerce_product_def)

lemma on_conflict_update_fields:
  "display_fields_match e v (on_conflict_update now (parse_woocommerce_product e v) emb r)"
  "is_deleted (on_conflict_update now pd emb r) = 0"
  "deleted_at (on_conflict_update now pd emb r) = None"
  "synced_at (on_conflict_update now pd emb r) = Some now"
  "updated_at (on_conflict_update now pd emb r) = Some now"
  by (simp_all add: on_conflict_update_def display_fields_match_def parse_woocommerce_product_def
        Let_def split: option.splits)

lemma on_conflict_update_frame:
  "product_pk (on_conflict_update now pd emb r) = product_pk r"
  "store_id (on_conflict_update now pd emb r) = store_id r"
  "merchant_id (on_conflict_update now pd emb r) = merchant_id r"
  "wc_created_at (on_conflict_update now pd emb r) = wc_created_at r"
  "created_at (on_conflict_update now pd emb r) = created_at r"
  by (simp_all add: on_conflict_update_def Let_def split: option.splits)

lemma inserted_row_fields:
  "display_fields_match e v (inserted_row now pk n st (parse_woocommerce_product e v) emb)"
  "is_deleted (inserted_row now pk n st pd emb) = 0"
  "deleted_at (inserted_row now pk n st pd emb) = None"
  "synced_at (inserted_row now pk n st pd emb) = Some now"
  "wc_product_id (inserted_row now pk n st pd emb) = n"
  by (simp_all add: inserted_row_def display_fields_match_def parse_woocommerce_product_def)

lemma row_of_Some: "row_of d n = Some r \<Longrightarrow> r \<in> set (products d) \<and> wc_product_id r = n"
  by (auto simp: row_of_def find_Some_iff)

lemma row_of_None: "row_of d n = None \<Longrightarrow> \<forall>r \<in> set (products d). wc_product_id r \<noteq> n"
  by (auto simp: row_of_def find_None_iff)

text \<open>A successful upsert: what it returns and what it leaves in the table.\<close>

lemma upsert_success:
  assumes "bigint_column (dict_get v ''id'') = Inr n"
  shows "\<exists>d' p. upsert_product e now d st v g = Inr (d', Some p)
           \<and> row_of d' n = Some p
           \<and> wc_product_id p = n
           \<and> display_fields_match e v p
           \<and> is_deleted p = 0 \<and> deleted_at p = None \<and> synced_at p = Some now
           \<and> (\<forall>x \<in> set (products d'). wc_product_id x = n \<longrightarrow> is_deleted x = 0)"
proof (cases "row_of d n")
  case None
  note ins = upsert_insert[OF assms None, of e now st g]
  have "\<forall>r \<in> set (products d). wc_product_id r \<noteq> n" using row_of_None[OF None] .
  moreover have "find (\<lambda>r. wc_product_id r = n) (products d) = None"
    using None by (simp add: row_of_def)
  ultimately show ?thesis
    unfolding ins
    by (auto simp: row_of_def find_snoc inserted_row_fields)
next
  case (Some r)
  note upd = upsert_conflict[OF assms Some, of e now st g]
  have "wc_product_id r = n" using row_of_Some[OF Some] by simp
  then show ?thesis
    unfolding upd using Some
    by (auto simp: row_of_def find_map_update wc_id_on_conflict on_conflict_update_fields)
qed

lemma map_update_first:
  assumes "\<And>x. g (f x) = g x"
  shows "map g (update_first P f xs) = map g xs"
  using assms by (induction xs) auto


lemma row_of_iff_mem: "row_of d n \<noteq> None \<longleftrightarrow> n \<in> set (map wc_product_id (products d))"
  by (auto simp: row_of_def find_None_iff)

lemma soft_delete_wc_ids:
  "map wc_product_id (products (fst (soft_delete_product t d n m))) = map wc_product_id (products d)"
  by (simp add: soft_delete_product_def mark_deleted_def map_update_first split: option.splits)


subsection \<open>Convergence to the latest payload\<close>






subsection \<open>The frame of a conflicting upsert\<close>




subsection \<open>Embedding failures\<close>










subsection \<open>Idempotence and the unique index\<close>



lemma map_wc_conflict:
  "map wc_product_id (map (\<lambda>r. if wc_product_id r = n then on_conflict_update now pd emb r else r) xs)
     = map wc_product_id xs"
  by (induction xs) (simp_all add: wc_id_on_conflict)

lemma upsert_wc_ids:
  assumes "upsert_product e now d st v g = Inr (d', po)"
  shows "set (map wc_product_id (products d)) \<subseteq> set (map wc_product_id (products d'))"
    and "unique_wc_ids d \<Longrightarrow> unique_wc_ids d'"
proof -
  obtain n where n: "bigint_column (dict_get v ''id'') = Inr n"
    using assms upsert_error[of v _ e now d st g] by (cases "bigint_column (dict_get v ''id'')") auto
  have "set (map wc_product_id (products d)) \<subseteq> set (map wc_product_id (products d'))
        \<and> (unique_wc_ids d \<longrightarrow> unique_wc_ids d')"
  proof (cases "row_of d n")
    case None
    have "n \<notin> set (map wc_product_id (products d))"
      using None row_of_iff_mem[of d n] by simp
    then show ?thesis
      using assms unfolding upsert_insert[OF n None]
      by (auto simp: unique_wc_ids_def inserted_row_fields)
  next
    case (Some r)
    have d': "products d' = map (\<lambda>r. if wc_product_id r = n
                      then on_conflict_update now (parse_woocommerce_product e v) (embedding_entry e v g) r
                      else r) (products d)"
      using assms unfolding upsert_conflict[OF n Some] by auto
    show ?thesis
      unfolding unique_wc_ids_def d' map_wc_conflict by simp
  qed
  then show "set (map wc_product_id (products d)) \<subseteq> set (map wc_product_id (products d'))"
    and "unique_wc_ids d \<Longrightarrow> unique_wc_ids d'" by auto
qed









section \<open>Pagination of the bulk sync\<close>

lemma accumulate_fields:
  "pages_fetched (accumulate ts bs) = pages_fetched ts + 1"
  "sync_status (accumulate ts bs) = sync_status ts"
  by (simp_all add: accumulate_def)


lemma fetch_pages_stop:
  assumes "page_stops e c pp p"
  shows "\<exists>d1 ts1. fetch_pages (Suc fuel) e now st c pp p d ts = Some (None, p, d1, ts1)
           \<and> pages_fetched ts1 = pages_fetched ts + (if page_has_items e c pp p then 1 else 0)
           \<and> sync_status ts1 = sync_status ts"
proof -
  obtain items tc tp where g: "get_products e c p pp = Inr (items, tc, tp)"
    and c: "items = [] \<or> tp \<le> p \<or> int (length items) < pp"
    using assms by (auto simp: page_stops_def split: sum.splits)
  show ?thesis
  proof (cases "items = []")
    case True
    then show ?thesis using g by (simp add: page_has_items_def)
  next
    case False
    let ?ts1 = "if p = 1 then ts \<lparr> total_products := tc \<rparr> else ts"
    obtain d1 bs where b: "sync_products_batch e now st items (d, empty_stats) = (d1, bs)"
      by (cases "sync_products_batch e now st items (d, empty_stats)") auto
    have "fetch_pages (Suc fuel) e now st c pp p d ts = Some (None, p, d1, accumulate ?ts1 bs)"
      using g c b False by (auto simp: Let_def)
    moreover have "pages_fetched (accumulate ?ts1 bs) = pages_fetched ts + 1"
      "sync_status (accumulate ?ts1 bs) = sync_status ts"
      by (simp_all add: accumulate_fields)
    ultimately show ?thesis using False g by (simp add: page_has_items_def)
  qed
qed






lemma continues_not_stops: "page_continues e c pp p \<Longrightarrow> \<not> page_stops e c pp p"
  by (auto simp: page_continues_def page_stops_def split: sum.splits)





section \<open>Reconciliation\<close>

subsection \<open>One page of the walk\<close>

lemma reconcile_page_append:
  "reconcile_page e now st (xs @ ys) ws =
     (case reconcile_page e now st xs ws of
        (Some err, ws1) \<Rightarrow> (Some err, ws1)
      | (None, ws1) \<Rightarrow> reconcile_page e now st ys ws1)"
proof (induction xs arbitrary: ws)
  case Nil
  then show ?case by simp
next
  case (Cons x xs)
  obtain d r ids where ws: "ws = (d, r, ids)" by (cases ws) auto
  show ?case
    unfolding ws
    by (simp add: Cons.IH Let_def split: option.splits sum.splits prod.splits)
qed

text \<open>The first iteration of a loop that raised nothing.\<close>

lemma reconcile_page_Cons_None:
  assumes "reconcile_page e now st (p # ps) (d, r, ids) = (None, ws')"
  shows "\<exists>pid d0 r0.
           map_of p ''id'' = Some pid
         \<and> reconcile_page e now st ps (d0, r0, pid # ids) = (None, ws')
         \<and> products_checked r0 = products_checked r + 1
         \<and> products_deleted r0 = products_deleted r
         \<and> errors r0 = errors r
         \<and> result_status r0 = result_status r
         \<and> (d0 = d \<or> (\<exists>po. upsert_product e now d st p False = Inr (d0, po)))"
proof -
  obtain pid where pid: "map_of p ''id'' = Some pid"
    using assms by (auto split: option.splits)
  let ?r1 = "r \<lparr> products_checked := products_checked r + 1 \<rparr>"
  have up: "\<exists>d0 r0.
           reconcile_page e now st ps (d0, r0, pid # ids) = (None, ws')
         \<and> products_checked r0 = products_checked r + 1
         \<and> products_deleted r0 = products_deleted r
         \<and> errors r0 = errors r
         \<and> result_status r0 = result_status r
         \<and> (d0 = d \<or> (\<exists>po. upsert_product e now d st p False = Inr (d0, po)))"
    if rest: "reconcile_page e now st ps (dd, rr, pid # ids) = (None, ws')"
      and rr: "products_checked rr = products_checked r + 1" "products_deleted rr = products_deleted r"
              "errors rr = errors r" "result_status rr = result_status r"
      and dd: "dd = d \<or> (\<exists>po. upsert_product e now d st p False = Inr (dd, po))"
    for dd rr
    using that by blast
  show ?thesis
  proof (cases "query_by_wc_id_merchant d pid (store_merchant_id st)")
    case None
    then obtain d0 po where u: "upsert_product e now d st p False = Inr (d0, po)"
      using assms pid by (auto simp: Let_def split: sum.splits)
    have "reconcile_page e now st ps (d0, ?r1 \<lparr> products_added := products_added ?r1 + 1 \<rparr>, pid # ids) = (None, ws')"
      using assms pid None u by (simp add: Let_def)
    from up[OF this] u pid show ?thesis by auto
  next
    case (Some existing)
    show ?thesis
    proof (cases "is_deleted existing \<noteq> 0")
      case True
      then obtain d0 po where u: "upsert_product e now d st p False = Inr (d0, po)"
        using assms pid Some by (auto simp: Let_def split: sum.splits)
      have "reconcile_page e now st ps (d0, ?r1 \<lparr> products_updated := products_updated ?r1 + 1 \<rparr>, pid # ids) = (None, ws')"
        using assms pid Some True u by (simp add: Let_def)
      from up[OF this] u pid show ?thesis by auto
    next
      case False
      have "reconcile_page e now st ps (d, ?r1, pid # ids) = (None, ws')"
        using assms pid Some False by (simp add: Let_def)
      from up[OF this] pid show ?thesis by auto
    qed
  qed
qed

lemma upsert_stores:
  "upsert_product e now d st v g = Inr (d', po) \<Longrightarrow> stores d' = stores d"
  by (auto simp: upsert_product_def execute_upsert_def Let_def split: sum.splits if_splits)

lemma dict_get_map_of: "map_of p k = Some v \<Longrightarrow> dict_get p k = v"
  by (simp add: dict_get_def)

text \<open>What a walk over products that raised nothing did to the counters and the set.\<close>

lemma reconcile_page_counters:
  "reconcile_page e now st ps (d, r, ids) = (None, (d1, r1, ids1)) \<Longrightarrow>
     ids1 = rev (map (\<lambda>p. dict_get p ''id'') ps) @ ids
   \<and> products_checked r1 = products_checked r + int (length ps)
   \<and> products_deleted r1 = products_deleted r
   \<and> errors r1 = errors r
   \<and> result_status r1 = result_status r
   \<and> (unique_wc_ids d \<longrightarrow> unique_wc_ids d1)
   \<and> stores d1 = stores d"
proof (induction ps arbitrary: d r ids)
  case Nil
  then show ?case by simp
next
  case (Cons p ps)
  from reconcile_page_Cons_None[OF Cons.prems]
  obtain pid d0 r0 where pid: "map_of p ''id'' = Some pid"
    and rest: "reconcile_page e now st ps (d0, r0, pid # ids) = (None, (d1, r1, ids1))"
    and c: "products_checked r0 = products_checked r + 1"
           "products_deleted r0 = products_deleted r"
           "errors r0 = errors r" "result_status r0 = result_status r"
    and d0: "d0 = d \<or> (\<exists>po. upsert_product e now d st p False = Inr (d0, po))"
    by blast
  have u: "unique_wc_ids d \<longrightarrow> unique_wc_ids d0"
    using d0 upsert_wc_ids(2) by blast
  have s: "stores d0 = stores d" using d0 upsert_stores by blast
  from Cons.IH[OF rest] c u s dict_get_map_of[OF pid]
  show ?case by simp
qed

subsection \<open>The frame of the walk\<close>

lemma upsert_frame:
  assumes "upsert_product e now d st v g = Inr (d', po)"
      and "\<And>x. Q x \<Longrightarrow> JInt (wc_product_id x) \<noteq> dict_get v ''id''"
  shows "filter Q (products d') = filter Q (products d)"
proof -
  obtain n where n: "bigint_column (dict_get v ''id'') = Inr n"
    using assms(1) upsert_error[of v _ e now d st g] by (cases "bigint_column (dict_get v ''id'')") auto
  have q: "\<not> Q x" if "wc_product_id x = n" for x
    using assms(2)[of x] that bigint_column_Inr[OF n] by auto
  show ?thesis
  proof (cases "row_of d n")
    case None
    have "products d' = products d @ [inserted_row now (next_product_pk d) n st
             (parse_woocommerce_product e v) (embedding_entry e v g)]"
      using assms(1) unfolding upsert_insert[OF n None] by auto
    then show ?thesis using q by (simp add: inserted_row_fields)
  next
    case (Some r)
    have d': "products d' = map (\<lambda>r. if wc_product_id r = n
                      then on_conflict_update now (parse_woocommerce_product e v) (embedding_entry e v g) r
                      else r) (products d)"
      using assms(1) unfolding upsert_conflict[OF n Some] by auto
    have "filter Q (map (\<lambda>r. if wc_product_id r = n then f r else r) xs) = filter Q xs"
      if "\<And>r. wc_product_id (f r) = wc_product_id r" for f xs
      using q that by (induction xs) auto
    then show ?thesis unfolding d' by (simp add: wc_id_on_conflict)
  qed
qed

lemma reconcile_page_frame:
  assumes "reconcile_page e now st ps (d, r, ids) = (None, (d1, r1, ids1))"
      and "\<And>x. Q x \<Longrightarrow> \<not> seen_in ps (wc_product_id x)"
  shows "filter Q (products d1) = filter Q (products d)"
  using assms
proof (induction ps arbitrary: d r ids)
  case Nil
  then show ?case by simp
next
  case (Cons p ps)
  from reconcile_page_Cons_None[OF Cons.prems(1)]
  obtain pid d0 r0 where pid: "map_of p ''id'' = Some pid"
    and rest: "reconcile_page e now st ps (d0, r0, pid # ids) = (None, (d1, r1, ids1))"
    and d0: "d0 = d \<or> (\<exists>po. upsert_product e now d st p False = Inr (d0, po))"
    by blast
  have q: "JInt (wc_product_id x) \<noteq> dict_get p ''id''" if "Q x" for x
    using Cons.prems(2)[OF that] by (auto simp: seen_in_def)
  have q': "\<not> seen_in ps (wc_product_id x)" if "Q x" for x
    using Cons.prems(2)[OF that] by (auto simp: seen_in_def)
  have "filter Q (products d0) = filter Q (products d)"
    using d0 upsert_frame[of e now d st p False d0 _ Q] q by auto
  with Cons.IH[OF rest q'] show ?case by simp
qed

subsection \<open>The walk over the pages\<close>

lemma reconcile_walk_completed:
  "reconcile_walk fuel e now st c page ws = Some (None, ws') \<Longrightarrow>
     \<exists>ps. remote_catalog fuel e c page = Some ps \<and> reconcile_page e now st ps ws = (None, ws')"
proof (induction fuel arbitrary: page ws)
  case 0
  then show ?case by simp
next
  case (Suc fuel)
  from Suc.prems obtain items tc tp where g: "get_products e c page 100 = Inr (items, tc, tp)"
    by (auto split: sum.splits)
  show ?case
  proof (cases "items = []")
    case True
    then show ?thesis using Suc.prems g by simp
  next
    case False
    from Suc.prems g False obtain ws1 where p1: "reconcile_page e now st items ws = (None, ws1)"
      by (auto split: prod.splits option.splits)
    show ?thesis
    proof (cases "page \<ge> tp")
      case True
      then show ?thesis using Suc.prems g False p1 by simp
    next
      case notlast: False
      then have "reconcile_walk fuel e now st c (page + 1) ws1 = Some (None, ws')"
        using Suc.prems g False p1 by simp
      from Suc.IH[OF this] obtain ps where ps: "remote_catalog fuel e c (page + 1) = Some ps"
        and r: "reconcile_page e now st ps ws1 = (None, ws')" by blast
      have "remote_catalog (Suc fuel) e c page = Some (items @ ps)"
        using g False notlast ps by simp
      moreover have "reconcile_page e now st (items @ ps) ws = (None, ws')"
        using p1 r by (simp add: reconcile_page_append)
      ultimately show ?thesis by blast
    qed
  qed
qed

subsection \<open>The deletion pass\<close>

lemma update_first_unique:
  assumes "distinct (map f xs)" and "\<And>x. P x \<Longrightarrow> f x = n"
  shows "update_first P g xs = map (\<lambda>x. if P x then g x else x) xs"
  using assms(1)
proof (induction xs)
  case Nil
  then show ?case by simp
next
  case (Cons x xs)
  show ?case
  proof (cases "P x")
    case True
    have "\<not> P y" if "y \<in> set xs" for y
    proof
      assume "P y"
      then have "f y = f x" using assms(2) True by simp
      then have "f x \<in> f ` set xs" using that by (simp add: rev_image_eqI)
      then show False using Cons.prems by simp
    qed
    then have "map (\<lambda>x. if P x then g x else x) xs = xs" by (induction xs) auto
    then show ?thesis using True by simp
  next
    case False
    then show ?thesis using Cons by simp
  qed
qed

lemma soft_delete_as_map:
  assumes "unique_wc_ids d"
  shows "fst (soft_delete_product now d n m) =
           d \<lparr> products := map (\<lambda>x. if wc_product_id x = n \<and> merchant_id x = m
                                     then mark_deleted now x else x) (products d) \<rparr>"
proof (cases "find (\<lambda>r. wc_product_id r = n \<and> merchant_id r = m) (products d)")
  case None
  then have "\<forall>x \<in> set (products d). \<not> (wc_product_id x = n \<and> merchant_id x = m)"
    by (simp add: find_None_iff)
  then have "map (\<lambda>x. if wc_product_id x = n \<and> merchant_id x = m
                      then mark_deleted now x else x) (products d) = products d"
    by (intro map_idI) auto
  then show ?thesis using None by (simp add: soft_delete_product_def)
next
  case (Some p)
  have "update_first (\<lambda>r. wc_product_id r = n \<and> merchant_id r = m) (mark_deleted now) (products d)
        = map (\<lambda>x. if wc_product_id x = n \<and> merchant_id x = m then mark_deleted now x else x) (products d)"
    using update_first_unique[of wc_product_id "products d" "\<lambda>r. wc_product_id r = n \<and> merchant_id r = m" n]
      assms by (simp add: unique_wc_ids_def)
  then show ?thesis using Some by (simp add: soft_delete_product_def)
qed

lemma mark_deleted_fields:
  "wc_product_id (mark_deleted now x) = wc_product_id x"
  "merchant_id (mark_deleted now x) = merchant_id x"
  "is_deleted (mark_deleted now x) = 1"
  "mark_deleted now (mark_deleted now x) = mark_deleted now x"
  by (simp_all add: mark_deleted_def)

lemma soft_delete_unique:
  "unique_wc_ids d \<Longrightarrow> unique_wc_ids (fst (soft_delete_product now d n m))"
  using soft_delete_wc_ids[of now d n m] by (simp add: unique_wc_ids_def)

lemma delete_missing_result:
  assumes "unique_wc_ids d"
  shows "delete_missing now m ids L (d, r) =
           (d \<lparr> products :=
                  map (\<lambda>x. if merchant_id x = m \<and>
                              (\<exists>p \<in> set L. wc_product_id p = wc_product_id x
                                    \<and> JInt (wc_product_id p) \<notin> set ids)
                           then mark_deleted now x else x) (products d) \<rparr>,
            r \<lparr> products_deleted := products_deleted r
                  + int (length (filter (\<lambda>p. JInt (wc_product_id p) \<notin> set ids) L)) \<rparr>)"
  using assms
proof (induction L arbitrary: d r)
  case Nil
  then show ?case by (simp add: map_idI)
next
  case (Cons p L)
  show ?case
  proof (cases "JInt (wc_product_id p) \<notin> set ids")
    case False
    then have "\<And>x. (\<exists>q \<in> set (p # L). wc_product_id q = wc_product_id x \<and> JInt (wc_product_id q) \<notin> set ids)
                = (\<exists>q \<in> set L. wc_product_id q = wc_product_id x \<and> JInt (wc_product_id q) \<notin> set ids)"
      by auto
    then show ?thesis using False Cons.IH[OF Cons.prems] by simp
  next
    case True
    let ?d = "fst (soft_delete_product now d (wc_product_id p) m)"
    let ?r = "r \<lparr> products_deleted := products_deleted r + 1 \<rparr>"
    have step: "delete_missing now m ids (p # L) (d, r) = delete_missing now m ids L (?d, ?r)"
      using True by simp
    have dm: "?d = d \<lparr> products := map (\<lambda>x. if wc_product_id x = wc_product_id p \<and> merchant_id x = m
                                     then mark_deleted now x else x) (products d) \<rparr>"
      using soft_delete_as_map[OF Cons.prems] .
    have comp: "map (\<lambda>x. if merchant_id x = m \<and>
                              (\<exists>q \<in> set L. wc_product_id q = wc_product_id x
                                    \<and> JInt (wc_product_id q) \<notin> set ids)
                           then mark_deleted now x else x)
                 (map (\<lambda>x. if wc_product_id x = wc_product_id p \<and> merchant_id x = m
                                     then mark_deleted now x else x) (products d))
              = map (\<lambda>x. if merchant_id x = m \<and>
                              (\<exists>q \<in> set (p # L). wc_product_id q = wc_product_id x
                                    \<and> JInt (wc_product_id q) \<notin> set ids)
                           then mark_deleted now x else x) (products d)"
      using True by (auto simp: mark_deleted_fields)
    have len: "int (length (filter (\<lambda>p. JInt (wc_product_id p) \<notin> set ids) (p # L)))
                = 1 + int (length (filter (\<lambda>p. JInt (wc_product_id p) \<notin> set ids) L))"
      using True by simp
    have "delete_missing now m ids L (?d, ?r) =
           (?d \<lparr> products :=
                  map (\<lambda>x. if merchant_id x = m \<and>
                              (\<exists>p \<in> set L. wc_product_id p = wc_product_id x
                                    \<and> JInt (wc_product_id p) \<notin> set ids)
                           then mark_deleted now x else x) (products ?d) \<rparr>,
            ?r \<lparr> products_deleted := products_deleted ?r
                  + int (length (filter (\<lambda>p. JInt (wc_product_id p) \<notin> set ids) L)) \<rparr>)"
      using Cons.IH[OF soft_delete_unique[OF Cons.prems]] .
    also have "products ?d = map (\<lambda>x. if wc_product_id x = wc_product_id p \<and> merchant_id x = m
                                     then mark_deleted now x else x) (products d)"
      by (subst dm) simp
    finally show ?thesis
      unfolding step comp len by (subst (asm) dm) (simp add: add.assoc)
  qed
qed

subsection \<open>The three branches of one iteration\<close>

lemma reconcile_page_Cons_cases:
  assumes "reconcile_page e now st (p # ps) (d, r, ids) = (None, ws')"
  obtains
    (added) pid d0 po where
      "map_of p ''id'' = Some pid"
      "query_by_wc_id_merchant d pid (store_merchant_id st) = None"
      "upsert_product e now d st p False = Inr (d0, po)"
      "reconcile_page e now st ps
         (d0, r \<lparr> products_checked := products_checked r + 1,
                  products_added := products_added r + 1 \<rparr>, pid # ids) = (None, ws')"
  | (restored) pid ex d0 po where
      "map_of p ''id'' = Some pid"
      "query_by_wc_id_merchant d pid (store_merchant_id st) = Some ex"
      "is_deleted ex \<noteq> 0"
      "upsert_product e now d st p False = Inr (d0, po)"
      "reconcile_page e now st ps
         (d0, r \<lparr> products_checked := products_checked r + 1,
                  products_updated := products_updated r + 1 \<rparr>, pid # ids) = (None, ws')"
  | (kept) pid ex where
      "map_of p ''id'' = Some pid"
      "query_by_wc_id_merchant d pid (store_merchant_id st) = Some ex"
      "is_deleted ex = 0"
      "reconcile_page e now st ps
         (d, r \<lparr> products_checked := products_checked r + 1 \<rparr>, pid # ids) = (None, ws')"
proof -
  obtain pid where pid: "map_of p ''id'' = Some pid"
    using assms by (auto split: option.splits)
  show ?thesis
  proof (cases "query_by_wc_id_merchant d pid (store_merchant_id st)")
    case None
    then obtain d0 po where u: "upsert_product e now d st p False = Inr (d0, po)"
      using assms pid by (auto simp: Let_def split: sum.splits)
    show ?thesis
      using assms pid None u by (intro added[OF pid None u]) (simp add: Let_def)
  next
    case (Some ex)
    show ?thesis
    proof (cases "is_deleted ex \<noteq> 0")
      case True
      then obtain d0 po where u: "upsert_product e now d st p False = Inr (d0, po)"
        using assms pid Some by (auto simp: Let_def split: sum.splits)
      show ?thesis
        using assms pid Some True u by (intro restored[OF pid Some True u]) (simp add: Let_def)
    next
      case False
      then have z: "is_deleted ex = 0" by simp
      show ?thesis
        using assms pid Some z by (intro kept[OF pid Some z]) (simp add: Let_def)
    qed
  qed
qed

lemma find_via_filter:
  "find P xs = (case filter P xs of [] \<Rightarrow> None | x # _ \<Rightarrow> Some x)"
  by (induction xs) auto

lemma query_frame:
  assumes "upsert_product e now d st p g = Inr (d0, po)" and "pid \<noteq> dict_get p ''id''"
  shows "query_by_wc_id_merchant d0 pid m = query_by_wc_id_merchant d pid m"
proof (cases pid)
  case (JInt n)
  have "filter (\<lambda>r. wc_product_id r = n \<and> merchant_id r = m) (products d0)
      = filter (\<lambda>r. wc_product_id r = n \<and> merchant_id r = m) (products d)"
    using assms(2) JInt by (intro upsert_frame[OF assms(1)]) auto
  then show ?thesis by (simp add: query_by_wc_id_merchant_def JInt find_via_filter)
qed (simp_all add: query_by_wc_id_merchant_def)

lemma upsert_other_rows:
  assumes "upsert_product e now d st p g = Inr (d0, po)"
      and "x \<in> set (products d0)" and "JInt (wc_product_id x) \<noteq> dict_get p ''id''"
  shows "x \<in> set (products d)"
proof -
  have "filter (\<lambda>r. JInt (wc_product_id r) \<noteq> dict_get p ''id'') (products d0)
      = filter (\<lambda>r. JInt (wc_product_id r) \<noteq> dict_get p ''id'') (products d)"
    by (intro upsert_frame[OF assms(1)]) auto
  then have "set (filter (\<lambda>r. JInt (wc_product_id r) \<noteq> dict_get p ''id'') (products d0))
      = set (filter (\<lambda>r. JInt (wc_product_id r) \<noteq> dict_get p ''id'') (products d))" by simp
  then show ?thesis using assms(2,3) by auto
qed

lemma upsert_same_id_active:
  assumes "upsert_product e now d st p g = Inr (d0, po)"
      and "x \<in> set (products d0)" and "JInt (wc_product_id x) = dict_get p ''id''"
  shows "is_deleted x = 0"
proof -
  obtain n where n: "bigint_column (dict_get p ''id'') = Inr n"
    using assms(1) upsert_error[of p _ e now d st g] by (cases "bigint_column (dict_get p ''id'')") auto
  from upsert_success[OF n, of e now d st g] assms(1)
  have "\<forall>x \<in> set (products d0). wc_product_id x = n \<longrightarrow> is_deleted x = 0" by auto
  moreover have "wc_product_id x = n" using assms(3) bigint_column_Inr[OF n] by simp
  ultimately show ?thesis using assms(2) by blast
qed

lemma query_Some_unique:
  assumes "unique_wc_ids d" and "query_by_wc_id_merchant d pid m = Some ex"
      and "x \<in> set (products d)" and "JInt (wc_product_id x) = pid"
  shows "x = ex"
proof -
  obtain n where pid: "pid = JInt n" using assms(4) by auto
  have ex: "ex \<in> set (products d)" "wc_product_id ex = n"
    using assms(2) by (auto simp: query_by_wc_id_merchant_def pid find_Some_iff)
  have "wc_product_id x = n" using assms(4) pid by simp
  then show ?thesis
    using ex assms(1,3) by (auto simp: unique_wc_ids_def distinct_map inj_on_def)
qed

text \<open>After the walk, the tenant's rows whose remote ID was seen are active.\<close>

lemma reconcile_page_seen_active:
  assumes "reconcile_page e now st ps (d, r, ids) = (None, (d1, r1, ids1))"
      and "unique_wc_ids d"
      and "\<forall>x \<in> set (products d). merchant_id x = store_merchant_id st \<and> JInt (wc_product_id x) \<in> set ids
              \<longrightarrow> is_deleted x = 0"
  shows "\<forall>x \<in> set (products d1). merchant_id x = store_merchant_id st \<and> JInt (wc_product_id x) \<in> set ids1
              \<longrightarrow> is_deleted x = 0"
  using assms
proof (induction ps arbitrary: d r ids)
  case Nil
  then show ?case by simp
next
  case (Cons p ps)
  let ?m = "store_merchant_id st"
  from Cons.prems(1) show ?case
  proof (cases rule: reconcile_page_Cons_cases)
    case (added pid d0 po)
    have u: "unique_wc_ids d0" using upsert_wc_ids(2)[OF added(3) Cons.prems(2)] .
    have inv: "\<forall>x \<in> set (products d0). merchant_id x = ?m \<and> JInt (wc_product_id x) \<in> set (pid # ids)
              \<longrightarrow> is_deleted x = 0"
    proof (intro ballI impI)
      fix x assume x: "x \<in> set (products d0)"
        and h: "merchant_id x = ?m \<and> JInt (wc_product_id x) \<in> set (pid # ids)"
      show "is_deleted x = 0"
      proof (cases "JInt (wc_product_id x) = dict_get p ''id''")
        case True
        then show ?thesis using upsert_same_id_active[OF added(3) x] by simp
      next
        case False
        then have "x \<in> set (products d)" using upsert_other_rows[OF added(3) x] by simp
        moreover have "JInt (wc_product_id x) \<in> set ids"
          using h False dict_get_map_of[OF added(1)] by auto
        ultimately show ?thesis using Cons.prems(3) h by blast
      qed
    qed
    from Cons.IH[OF added(4) u inv] show ?thesis .
  next
    case (restored pid ex d0 po)
    have u: "unique_wc_ids d0" using upsert_wc_ids(2)[OF restored(4) Cons.prems(2)] .
    have inv: "\<forall>x \<in> set (products d0). merchant_id x = ?m \<and> JInt (wc_product_id x) \<in> set (pid # ids)
              \<longrightarrow> is_deleted x = 0"
    proof (intro ballI impI)
      fix x assume x: "x \<in> set (products d0)"
        and h: "merchant_id x = ?m \<and> JInt (wc_product_id x) \<in> set (pid # ids)"
      show "is_deleted x = 0"
      proof (cases "JInt (wc_product_id x) = dict_get p ''id''")
        case True
        then show ?thesis using upsert_same_id_active[OF restored(4) x] by simp
      next
        case False
        then have "x \<in> set (products d)" using upsert_other_rows[OF restored(4) x] by simp
        moreover have "JInt (wc_product_id x) \<in> set ids"
          using h False dict_get_map_of[OF restored(1)] by auto
        ultimately show ?thesis using Cons.prems(3) h by blast
      qed
    qed
    from Cons.IH[OF restored(5) u inv] show ?thesis .
  next
    case (kept pid ex)
    have inv: "\<forall>x \<in> set (products d). merchant_id x = ?m \<and> JInt (wc_product_id x) \<in> set (pid # ids)
              \<longrightarrow> is_deleted x = 0"
    proof (intro ballI impI)
      fix x assume x: "x \<in> set (products d)"
        and h: "merchant_id x = ?m \<and> JInt (wc_product_id x) \<in> set (pid # ids)"
      show "is_deleted x = 0"
      proof (cases "JInt (wc_product_id x) = pid")
        case True
        from query_Some_unique[OF Cons.prems(2) kept(2) x True] kept(3) show ?thesis by simp
      next
        case False
        then show ?thesis using Cons.prems(3) x h by auto
      qed
    qed
    from Cons.IH[OF kept(4) Cons.prems(2) inv] show ?thesis .
  qed
qed

text \<open>The counts of a walk over distinct remote IDs, read off the database it started from.\<close>

lemma reconcile_page_counts:
  assumes "reconcile_page e now st ps (d, r, ids) = (None, (d1, r1, ids1))"
      and "distinct (map (\<lambda>p. dict_get p ''id'') ps)"
  shows "products_added r1 = products_added r
           + int (length (filter (\<lambda>p. query_by_wc_id_merchant d (dict_get p ''id'') (store_merchant_id st) = None) ps))
       \<and> products_updated r1 = products_updated r
           + int (length (filter (\<lambda>p. case query_by_wc_id_merchant d (dict_get p ''id'') (store_merchant_id st) of
                                        None \<Rightarrow> False | Some ex \<Rightarrow> is_deleted ex \<noteq> 0) ps))"
  using assms
proof (induction ps arbitrary: d r ids)
  case Nil
  then show ?case by simp
next
  case (Cons p ps)
  let ?m = "store_merchant_id st"
  let ?new = "\<lambda>d p. query_by_wc_id_merchant d (dict_get p ''id'') ?m = None"
  let ?del = "\<lambda>d p. case query_by_wc_id_merchant d (dict_get p ''id'') ?m of
                        None \<Rightarrow> False | Some ex \<Rightarrow> is_deleted ex \<noteq> 0"
  have dist: "distinct (map (\<lambda>p. dict_get p ''id'') ps)" using Cons.prems(2) by simp
  have other: "dict_get q ''id'' \<noteq> dict_get p ''id''" if "q \<in> set ps" for q
  proof
    assume "dict_get q ''id'' = dict_get p ''id''"
    then have "dict_get p ''id'' \<in> (\<lambda>p. dict_get p ''id'') ` set ps"
      using that by (simp add: rev_image_eqI)
    then show False using Cons.prems(2) by simp
  qed
  have same: "filter (?new d0) ps = filter (?new d) ps \<and> filter (?del d0) ps = filter (?del d) ps"
    if "upsert_product e now d st p False = Inr (d0, po)" for d0 po
  proof -
    have "query_by_wc_id_merchant d0 (dict_get q ''id'') ?m = query_by_wc_id_merchant d (dict_get q ''id'') ?m"
      if "q \<in> set ps" for q
      using query_frame[OF \<open>upsert_product e now d st p False = Inr (d0, po)\<close> other[OF that]] .
    then show ?thesis by (auto intro!: filter_cong)
  qed
  from Cons.prems(1) show ?case
  proof (cases rule: reconcile_page_Cons_cases)
    case (added pid d0 po)
    from Cons.IH[OF added(4) dist] same[OF added(3)] added(2) dict_get_map_of[OF added(1)]
    show ?thesis by simp
  next
    case (restored pid ex d0 po)
    from Cons.IH[OF restored(5) dist] same[OF restored(4)] restored(2,3) dict_get_map_of[OF restored(1)]
    show ?thesis by simp
  next
    case (kept pid ex)
    from Cons.IH[OF kept(4) dist] kept(2,3) dict_get_map_of[OF kept(1)]
    show ?thesis by simp
  qed
qed

subsection \<open>A completed reconciliation\<close>

lemma reconcile_products_completed_run:
  assumes "reconcile_products fuel e now d st = Some (d', result)"
      and "result_status result = ''completed''"
  shows "\<exists>d1 r1 ids1.
           reconcile_walk fuel e now st (WooCommerceClient e st) 1 (d, initial_result, [])
             = Some (None, (d1, r1, ids1))
         \<and> (d', result) = delete_missing now (store_merchant_id st) ids1
                             (local_products d1 (store_merchant_id st)) (d1, r1)"
proof (cases "reconcile_walk fuel e now st (WooCommerceClient e st) 1 (d, initial_result, [])")
  case None
  then show ?thesis using assms(1) by (simp add: reconcile_products_def)
next
  case (Some w)
  obtain outcome d1 r1 ids1 where w: "w = (outcome, (d1, r1, ids1))" by (cases w) auto
  show ?thesis
  proof (cases outcome)
    case None
    then show ?thesis using assms(1) Some w by (simp add: reconcile_products_def)
  next
    case (Some err)
    then have "result_status result = ''partial''"
      using assms(1) \<open>reconcile_walk fuel e now st (WooCommerceClient e st) 1 (d, initial_result, []) = Some w\<close> w
      by (auto simp: reconcile_products_def)
    then show ?thesis using assms(2) by simp
  qed
qed

lemma reconcile_step:
  assumes "map_of product ''id'' = Some (JInt n)" and "- (2 ^ 63) \<le> n \<and> n < 2 ^ 63"
  shows "\<exists>d1 r1.
           reconcile_page e now st (product # rest) (d0, r0, ids0)
             = reconcile_page e now st rest (d1, r1, JInt n # ids0)
         \<and> products_checked r1 = products_checked r0 + 1
         \<and> (case query_by_wc_id_merchant d0 (JInt n) (store_merchant_id st) of
              None \<Rightarrow>
                products_added r1 = products_added r0 + 1
                \<and> products_updated r1 = products_updated r0
                \<and> (\<exists>p. upsert_product e now d0 st product False = Inr (d1, Some p)
                       \<and> row_of d1 n = Some p
                       \<and> is_deleted p = 0 \<and> display_fields_match e product p)
            | Some existing \<Rightarrow>
                if is_deleted existing \<noteq> 0 then
                  products_added r1 = products_added r0
                  \<and> products_updated r1 = products_updated r0 + 1
                  \<and> (\<exists>p. upsert_product e now d0 st product False = Inr (d1, Some p)
                         \<and> row_of d1 n = Some p
                         \<and> is_deleted p = 0 \<and> display_fields_match e product p)
                else d1 = d0 \<and> products_added r1 = products_added r0
                     \<and> products_updated r1 = products_updated r0)"
proof -
  have n: "bigint_column (dict_get product ''id'') = Inr n"
    using assms by (simp add: dict_get_def bigint_column_def)
  from upsert_success[OF n, of e now d0 st False]
  obtain d1 p where u: "upsert_product e now d0 st product False = Inr (d1, Some p)"
    and r: "row_of d1 n = Some p" and f: "is_deleted p = 0" "display_fields_match e product p"
    by blast
  show ?thesis
  proof (cases "query_by_wc_id_merchant d0 (JInt n) (store_merchant_id st)")
    case None
    show ?thesis
      by (rule exI[of _ d1],
          rule exI[of _ "r0 \<lparr> products_checked := products_checked r0 + 1,
                               products_added := products_added r0 + 1 \<rparr>"])
         (use assms(1) None u r f in \<open>simp add: Let_def\<close>)
  next
    case (Some existing)
    show ?thesis
    proof (cases "is_deleted existing \<noteq> 0")
      case True
      show ?thesis
        by (rule exI[of _ d1],
            rule exI[of _ "r0 \<lparr> products_checked := products_checked r0 + 1,
                                 products_updated := products_updated r0 + 1 \<rparr>"])
           (use assms(1) Some True u r f in \<open>simp add: Let_def\<close>)
    next
      case False
      show ?thesis
        by (rule exI[of _ d0],
            rule exI[of _ "r0 \<lparr> products_checked := products_checked r0 + 1 \<rparr>"])
           (use assms(1) Some False in \<open>simp add: Let_def\<close>)
    qed
  qed
qed

lemma reconcile_completed_facts:
  assumes "unique_wc_ids d"
      and "reconcile_products fuel e now d st = Some (d', result)"
      and "result_status result = ''completed''"
  shows
    "\<exists>ps. remote_catalog fuel e (WooCommerceClient e st) 1 = Some ps
       \<and> products_checked result = int (length ps)
       \<and> products_deleted result
           = int (length (filter (\<lambda>r. merchant_id r = store_merchant_id st \<and> is_deleted r = 0
                                      \<and> \<not> seen_in ps (wc_product_id r)) (products d)))
       \<and> (\<forall>r \<in> set (products d).
             merchant_id r = store_merchant_id st \<and> is_deleted r = 0
             \<and> \<not> seen_in ps (wc_product_id r) \<longrightarrow> mark_deleted now r \<in> set (products d'))
       \<and> (\<forall>r \<in> set (products d').
             merchant_id r = store_merchant_id st \<longrightarrow>
             (is_deleted r = 0 \<longleftrightarrow> seen_in ps (wc_product_id r)))
       \<and> (distinct (map (\<lambda>p. dict_get p ''id'') ps) \<longrightarrow>
             products_added result
               = int (length (filter (\<lambda>p. query_by_wc_id_merchant d (dict_get p ''id'')
                                             (store_merchant_id st) = None) ps))
           \<and> products_updated result
               = int (length (filter (\<lambda>p. case query_by_wc_id_merchant d (dict_get p ''id'')
                                                  (store_merchant_id st) of
                                             None \<Rightarrow> False
                                           | Some existing \<Rightarrow> is_deleted existing \<noteq> 0) ps)))"
proof -
  let ?m = "store_merchant_id st"
  from reconcile_products_completed_run[OF assms(2,3)]
  obtain d1 r1 ids1 where
    walk: "reconcile_walk fuel e now st (WooCommerceClient e st) 1 (d, initial_result, [])
             = Some (None, (d1, r1, ids1))"
    and fin: "(d', result) = delete_missing now ?m ids1 (local_products d1 ?m) (d1, r1)"
    by blast
  from reconcile_walk_completed[OF walk]
  obtain ps where cat: "remote_catalog fuel e (WooCommerceClient e st) 1 = Some ps"
    and page: "reconcile_page e now st ps (d, initial_result, []) = (None, (d1, r1, ids1))"
    by blast
  from reconcile_page_counters[OF page] assms(1)
  have ids1: "ids1 = rev (map (\<lambda>p. dict_get p ''id'') ps)"
    and chk: "products_checked r1 = int (length ps)"
    and del0: "products_deleted r1 = 0"
    and u1: "unique_wc_ids d1"
    by (simp_all add: initial_result_def)
  have seen: "seen_in ps n \<longleftrightarrow> JInt n \<in> set ids1" for n
    by (simp add: seen_in_def ids1)
  let ?Q = "\<lambda>r. merchant_id r = ?m \<and> is_deleted r = 0 \<and> \<not> seen_in ps (wc_product_id r)"
  let ?F = "\<lambda>x. if merchant_id x = ?m \<and>
                     (\<exists>p \<in> set (local_products d1 ?m). wc_product_id p = wc_product_id x
                           \<and> JInt (wc_product_id p) \<notin> set ids1)
                  then mark_deleted now x else x"
  have frame: "filter ?Q (products d1) = filter ?Q (products d)"
    by (rule reconcile_page_frame[OF page]) simp
  from fin delete_missing_result[OF u1, of now ?m ids1 "local_products d1 ?m" r1]
  have d': "d' = d1 \<lparr> products := map ?F (products d1) \<rparr>"
    and res: "result = r1 \<lparr> products_deleted := products_deleted r1
                  + int (length (filter (\<lambda>p. JInt (wc_product_id p) \<notin> set ids1) (local_products d1 ?m))) \<rparr>"
    by simp_all
  have pd': "products d' = map ?F (products d1)" by (simp add: d')
  have active: "\<forall>x \<in> set (products d1). merchant_id x = ?m \<and> JInt (wc_product_id x) \<in> set ids1
                   \<longrightarrow> is_deleted x = 0"
    by (rule reconcile_page_seen_active[OF page assms(1)]) simp
  have same_row: "p = x" if "p \<in> set (products d1)" "x \<in> set (products d1)"
      "wc_product_id p = wc_product_id x" for p x
    using u1 that by (auto simp: unique_wc_ids_def distinct_map inj_on_def)
  have Fmark: "?F x = mark_deleted now x" if "x \<in> set (products d1)" "?Q x" for x
  proof -
    have "x \<in> set (local_products d1 ?m)" using that by (simp add: local_products_def)
    moreover have "JInt (wc_product_id x) \<notin> set ids1" using that(2) seen by simp
    ultimately show ?thesis using that(2) by auto
  qed
  have Fkeep: "?F x = x" if "x \<in> set (products d1)" "\<not> ?Q x" for x
  proof -
    have "\<not> (\<exists>p \<in> set (local_products d1 ?m). wc_product_id p = wc_product_id x
                           \<and> JInt (wc_product_id p) \<notin> set ids1)" if m: "merchant_id x = ?m"
    proof
      assume "\<exists>p \<in> set (local_products d1 ?m). wc_product_id p = wc_product_id x
                           \<and> JInt (wc_product_id p) \<notin> set ids1"
      then obtain p where p: "p \<in> set (products d1)" "merchant_id p = ?m" "is_deleted p = 0"
        "wc_product_id p = wc_product_id x" "JInt (wc_product_id p) \<notin> set ids1"
        by (auto simp: local_products_def)
      have "p = x" using same_row[OF p(1) \<open>x \<in> set (products d1)\<close> p(4)] .
      then have "?Q x" using p seen by simp
      then show False using \<open>\<not> ?Q x\<close> by simp
    qed
    then show ?thesis by auto
  qed
  have c1: "products_checked result = int (length ps)" using res chk by simp
  have "filter (\<lambda>p. JInt (wc_product_id p) \<notin> set ids1) (local_products d1 ?m) = filter ?Q (products d1)"
    by (auto simp: local_products_def seen intro!: filter_cong)
  then have c2: "products_deleted result = int (length (filter ?Q (products d)))"
    using res del0 frame by simp
  have c3: "\<forall>r \<in> set (products d). ?Q r \<longrightarrow> mark_deleted now r \<in> set (products d')"
  proof (intro ballI impI)
    fix r assume "r \<in> set (products d)" "?Q r"
    then have "r \<in> set (filter ?Q (products d))" by simp
    then have r1: "r \<in> set (products d1)" unfolding frame[symmetric] by simp
    have "f x \<in> set (map f xs)" if "x \<in> set xs" for f :: "product \<Rightarrow> product" and xs x
      using that by simp
    from this[OF r1, of ?F] have "?F r \<in> set (map ?F (products d1))" .
    then show "mark_deleted now r \<in> set (products d')"
      unfolding pd' Fmark[OF r1 \<open>?Q r\<close>] .
  qed
  have c4: "\<forall>r \<in> set (products d'). merchant_id r = ?m \<longrightarrow>
             (is_deleted r = 0 \<longleftrightarrow> seen_in ps (wc_product_id r))"
  proof (intro ballI impI)
    fix r assume r: "r \<in> set (products d')" and m: "merchant_id r = ?m"
    have "r \<in> ?F ` set (products d1)" using r unfolding pd' set_map .
    then obtain x where x: "x \<in> set (products d1)" and rx: "r = ?F x"
      by (rule imageE)
    show "is_deleted r = 0 \<longleftrightarrow> seen_in ps (wc_product_id r)"
    proof (cases "?Q x")
      case True
      then have "r = mark_deleted now x" using Fmark[OF x] rx by simp
      then show ?thesis using True by (simp add: mark_deleted_fields)
    next
      case False
      then have "r = x" using Fkeep[OF x] rx by simp
      then show ?thesis using False m active x seen by auto
    qed
  qed
  have c5: "distinct (map (\<lambda>p. dict_get p ''id'') ps) \<longrightarrow>
             products_added result
               = int (length (filter (\<lambda>p. query_by_wc_id_merchant d (dict_get p ''id'') ?m = None) ps))
           \<and> products_updated result
               = int (length (filter (\<lambda>p. case query_by_wc_id_merchant d (dict_get p ''id'') ?m of
                                             None \<Rightarrow> False
                                           | Some existing \<Rightarrow> is_deleted existing \<noteq> 0) ps))"
  proof
    assume "distinct (map (\<lambda>p. dict_get p ''id'') ps)"
    from reconcile_page_counts[OF page this] res
    show "products_added result
               = int (length (filter (\<lambda>p. query_by_wc_id_merchant d (dict_get p ''id'') ?m = None) ps))
           \<and> products_updated result
               = int (length (filter (\<lambda>p. case query_by_wc_id_merchant d (dict_get p ''id'') ?m of
                                             None \<Rightarrow> False
                                           | Some existing \<Rightarrow> is_deleted existing \<noteq> 0) ps))"
      by (simp add: initial_result_def)
  qed
  show ?thesis
    using cat c1 c2 c3 c4 c5 by (intro exI[of _ ps] conjI)
qed


lemma reconcile_page_valid_ids:
  assumes "\<forall>p \<in> set ps. \<exists>n. map_of p ''id'' = Some (JInt n) \<and> - (2 ^ 63) \<le> n \<and> n < 2 ^ 63"
  shows "\<exists>ws'. reconcile_page e now st ps ws = (None, ws')"
  using assms
proof (induction ps arbitrary: ws)
  case Nil
  show ?case by (cases ws) simp
next
  case (Cons p ps)
  obtain d0 r0 ids0 where ws: "ws = (d0, r0, ids0)" by (cases ws) auto
  from Cons.prems obtain n where n: "map_of p ''id'' = Some (JInt n)" "- (2 ^ 63) \<le> n \<and> n < 2 ^ 63"
    by auto
  from reconcile_step[OF n, of e now st ps d0 r0 ids0]
  obtain d1 r1 where "reconcile_page e now st (p # ps) (d0, r0, ids0)
             = reconcile_page e now st ps (d1, r1, JInt n # ids0)" by blast
  moreover have "\<exists>ws'. reconcile_page e now st ps (d1, r1, JInt n # ids0) = (None, ws')"
    using Cons.IH Cons.prems by simp
  ultimately show ?case unfolding ws by simp
qed

lemma db_three_facts:
  "unique_wc_ids db_three"
  "products db_three = [row_of_a, row_8_deleted, row_9]"
  "wc_product_id row_of_a = 7" "wc_product_id row_8_deleted = 8" "wc_product_id row_9 = 9"
  "merchant_id row_of_a = ''merchant-a''" "merchant_id row_8_deleted = ''merchant-a''"
  "merchant_id row_9 = ''merchant-a''"
  "is_deleted row_of_a = 0" "is_deleted row_8_deleted = 1" "is_deleted row_9 = 0"
  "store_merchant_id store_a = ''merchant-a''"
  by (simp_all add: unique_wc_ids_def db_three_def row_of_a_def row_8_deleted_def row_9_def
        inserted_row_def mark_deleted_def store_a_def)



subsection \<open>A reconciliation that raises\<close>






section \<open>The daily job\<close>

lemma keeps_active_refl: "keeps_active d d"
  by (auto simp: keeps_active_def)

lemma keeps_active_trans: "keeps_active d d1 \<Longrightarrow> keeps_active d1 d2 \<Longrightarrow> keeps_active d d2"
  unfolding keeps_active_def by (metis (no_types, lifting))

lemma upsert_keeps_active:
  assumes "upsert_product e now d st v g = Inr (d', po)"
  shows "keeps_active d d'"
proof -
  obtain n where n: "bigint_column (dict_get v ''id'') = Inr n"
    using assms upsert_error[of v _ e now d st g] by (cases "bigint_column (dict_get v ''id'')") auto
  show ?thesis
  proof (cases "row_of d n")
    case None
    have "products d' = products d @ [inserted_row now (next_product_pk d) n st
             (parse_woocommerce_product e v) (embedding_entry e v g)]"
      using assms unfolding upsert_insert[OF n None] by auto
    then show ?thesis by (auto simp: keeps_active_def)
  next
    case (Some r)
    let ?f = "\<lambda>r. if wc_product_id r = n
                      then on_conflict_update now (parse_woocommerce_product e v) (embedding_entry e v g) r
                      else r"
    have d': "products d' = map ?f (products d)"
      using assms unfolding upsert_conflict[OF n Some] by auto
    have "\<exists>x' \<in> set (products d'). wc_product_id x' = wc_product_id x
             \<and> merchant_id x' = merchant_id x \<and> is_deleted x' = 0"
      if x: "x \<in> set (products d)" "is_deleted x = 0" for x
    proof -
      have "?f x \<in> set (products d')" using x(1) unfolding d' by simp
      moreover have "wc_product_id (?f x) = wc_product_id x" "merchant_id (?f x) = merchant_id x"
        "is_deleted (?f x) = 0"
        using x(2) by (simp_all add: wc_id_on_conflict on_conflict_update_frame on_conflict_update_fields)
      ultimately show ?thesis by blast
    qed
    then show ?thesis by (simp add: keeps_active_def)
  qed
qed

lemma sync_products_batch_keeps_active:
  "keeps_active d (fst (sync_products_batch e now st ps (d, s)))"
proof (induction ps arbitrary: d s)
  case Nil
  then show ?case by (simp add: keeps_active_refl)
next
  case (Cons p ps)
  show ?case
  proof (cases "upsert_product e now d st p (ENABLE_EMBEDDINGS e)")
    case (Inl err)
    then show ?thesis using Cons.IH[of d] by simp
  next
    case (Inr x)
    obtain d0 po where x: "x = (d0, po)" by (cases x) auto
    have "keeps_active d d0" using upsert_keeps_active[OF Inr[unfolded x]] .
    moreover have "keeps_active d0 (fst (sync_products_batch e now st (p # ps) (d, s)))"
      using Inr x Cons.IH[of d0] by (simp add: Let_def)
    ultimately show ?thesis by (rule keeps_active_trans)
  qed
qed

lemma fetch_pages_keeps_active:
  "fetch_pages fuel e now st c pp page d ts = Some (outcome, q, d', ts') \<Longrightarrow> keeps_active d d'"
proof (induction fuel arbitrary: page d ts)
  case 0
  then show ?case by simp
next
  case (Suc fuel)
  show ?case
  proof (cases "get_products e c page pp")
    case (Inl err)
    then show ?thesis using Suc.prems by (auto simp: keeps_active_refl)
  next
    case (Inr x)
    obtain items tc tp where x: "x = (items, tc, tp)" by (cases x) auto
    show ?thesis
    proof (cases "items = []")
      case True
      then show ?thesis using Suc.prems Inr x by (auto simp: keeps_active_refl)
    next
      case False
      obtain d0 bs where b: "sync_products_batch e now st items (d, empty_stats) = (d0, bs)"
        by (cases "sync_products_batch e now st items (d, empty_stats)") auto
      have k0: "keeps_active d d0"
        using sync_products_batch_keeps_active[of d e now st items empty_stats] b by simp
      show ?thesis
      proof (cases "page \<ge> tp \<or> int (length items) < pp")
        case True
        then have "d' = d0" using Suc.prems Inr x False b by (auto simp: Let_def)
        then show ?thesis using k0 by simp
      next
        case cont: False
        let ?ts1 = "if page = 1 then ts \<lparr> total_products := tc \<rparr> else ts"
        have "fetch_pages fuel e now st c pp (page + 1) d0 (accumulate ?ts1 bs) = Some (outcome, q, d', ts')"
          using Suc.prems Inr x False b cont by (simp add: Let_def)
        from Suc.IH[OF this] k0 show ?thesis by (rule keeps_active_trans[rotated])
      qed
    qed
  qed
qed

lemma reconcile_store_keeps_active:
  assumes "reconcile_store fuel e now d st = Some d'"
  shows "keeps_active d d'"
proof -
  from assms obtain outcome q d0 ts where
    f: "fetch_pages fuel e now st (WooCommerceClient e st) (WC_PRODUCTS_PER_PAGE e) 1 d initial_total_stats
          = Some (outcome, q, d0, ts)"
    and p: "products d' = products d0"
    by (auto simp: reconcile_store_def fetch_all_products_from_woocommerce_def set_last_synced_def
             split: option.splits)
  from fetch_pages_keeps_active[OF f] p show ?thesis by (simp add: keeps_active_def)
qed

lemma reconcile_stores_keeps_active:
  "reconcile_stores fuel e now sts d = Some d' \<Longrightarrow> keeps_active d d'"
proof (induction sts arbitrary: d)
  case Nil
  then show ?case by (simp add: keeps_active_refl)
next
  case (Cons st sts)
  from Cons.prems obtain d0 where s: "reconcile_store fuel e now d st = Some d0"
    and r: "reconcile_stores fuel e now sts d0 = Some d'"
    by (auto split: option.splits)
  from reconcile_store_keeps_active[OF s] Cons.IH[OF r] show ?case by (rule keeps_active_trans)
qed

text \<open>
  The daily job calls the bulk sync, which only upserts: whatever the remote stores
  answer, a row that was active before the job has an active row afterwards.
\<close>

lemma reconciliation_job_keeps_active:
  "reconciliation_job fuel e now d = Some d' \<Longrightarrow> keeps_active d d'"
  unfolding reconciliation_job_def by (rule reconcile_stores_keeps_active)

lemma reconcile_store_returns:
  assumes "page_stops e (WooCommerceClient e st) (WC_PRODUCTS_PER_PAGE e) 1"
  shows "\<exists>d'. reconcile_store (Suc fuel) e now d st = Some d'"
proof -
  from fetch_pages_stop[OF assms, of fuel now st d initial_total_stats]
  obtain d1 ts1 where "fetch_pages (Suc fuel) e now st (WooCommerceClient e st)
      (WC_PRODUCTS_PER_PAGE e) 1 d initial_total_stats = Some (None, 1, d1, ts1)"
    by blast
  then show ?thesis
    by (simp add: reconcile_store_def fetch_all_products_from_woocommerce_def
             del: fetch_pages.simps)
qed

lemma job_env_clients:
  "client_store_url (WooCommerceClient e store_a) = ''https://a.example''"
  "client_store_url (WooCommerceClient e store_b) = ''https://b.example''"
  "WC_PRODUCTS_PER_PAGE job_env = 2"
  by (simp_all add: WooCommerceClient_def rstrip_slash_def store_a_def store_b_def job_env_def
        example_env_def)

lemma job_env_pages:
  "page_stops job_env (WooCommerceClient job_env store_a) 2 1"
  "page_stops job_env (WooCommerceClient job_env store_b) 2 1"
  "get_products job_env (WooCommerceClient job_env store_a) 1 100
     = Inr ([payload_v1, product_8, product_10], 3, 1)"
  by (simp_all add: page_stops_def get_products_def job_env_def example_env_def catalog_of_a_def
        job_env_clients(1,2))

text \<open>
  Claim C3 at a concrete input. Tenant \<open>merchant-a\<close> holds the active product 9, which
  its remote store no longer lists. The daily job returns and leaves product 9 active;
  \<open>reconcile_products\<close>, run on the same database against the same remote store,
  soft-deletes it and counts one deletion.
\<close>

theorem daily_job_skips_deletion_pass:
  "row_9 \<in> set (products db_three)
   \<and> merchant_id row_9 = ''merchant-a'' \<and> wc_product_id row_9 = 9 \<and> is_deleted row_9 = 0
   \<and> is_active store_a = 1 \<and> is_verified store_a = 1
   \<and> remote_catalog 1 job_env (WooCommerceClient job_env store_a) 1
        = Some [payload_v1, product_8, product_10]
   \<and> \<not> seen_in [payload_v1, product_8, product_10] 9
   \<and> (\<exists>d'. reconciliation_job 1 job_env 50 db_three = Some d'
         \<and> (\<exists>x \<in> set (products d').
               wc_product_id x = 9 \<and> merchant_id x = ''merchant-a'' \<and> is_deleted x = 0))
   \<and> (\<exists>d' result. reconcile_products 1 job_env 50 db_three store_a = Some (d', result)
         \<and> result_status result = ''completed''
         \<and> products_deleted result = 1
         \<and> mark_deleted 50 row_9 \<in> set (products d')
         \<and> \<not> (\<exists>x \<in> set (products d').
                 wc_product_id x = 9 \<and> merchant_id x = ''merchant-a'' \<and> is_deleted x = 0))"
proof -
  let ?c = "WooCommerceClient job_env store_a"
  let ?ps = "[payload_v1, product_8, product_10]"
  have sts: "filter (\<lambda>s. is_active s = 1 \<and> is_verified s = 1) (stores db_three) = [store_a, store_b]"
    by (simp add: db_three_def empty_db_def store_a_def store_b_def)
  have act: "is_active store_a = 1" "is_verified store_a = 1" by (simp_all add: store_a_def)
  \<comment> \<open>the daily job\<close>
  from reconcile_store_returns[of job_env store_a 0 50 db_three] job_env_pages(1) job_env_clients(3)
  obtain dA where a: "reconcile_store (Suc 0) job_env 50 db_three store_a = Some dA" by auto
  from reconcile_store_returns[of job_env store_b 0 50 dA] job_env_pages(2) job_env_clients(3)
  obtain dB where b: "reconcile_store (Suc 0) job_env 50 dA store_b = Some dB" by auto
  have job: "reconciliation_job 1 job_env 50 db_three = Some dB"
    unfolding reconciliation_job_def sts by (simp add: a b)
  have r9: "row_9 \<in> set (products db_three)" by (simp add: db_three_facts)
  from reconciliation_job_keeps_active[OF job] r9
  have still: "\<exists>x \<in> set (products dB).
               wc_product_id x = 9 \<and> merchant_id x = ''merchant-a'' \<and> is_deleted x = 0"
    unfolding keeps_active_def using db_three_facts(5,8,11) by fastforce
  \<comment> \<open>the reconciliation of the same store\<close>
  have cat: "remote_catalog 1 job_env ?c 1 = Some ?ps"
    by (simp add: job_env_pages(3))
  have ids: "dict_get payload_v1 ''id'' = JInt 7" "dict_get product_8 ''id'' = JInt 8"
            "dict_get product_10 ''id'' = JInt 10"
    by (simp_all add: dict_get_def payload_v1_def product_8_def product_10_def)
  have unseen: "\<not> seen_in ?ps 9" by (simp add: seen_in_def ids)
  have valid: "\<forall>p \<in> set ?ps. \<exists>n. map_of p ''id'' = Some (JInt n) \<and> - (2 ^ 63) \<le> n \<and> n < 2 ^ 63"
    by (simp add: payload_v1_def product_8_def product_10_def)
  from reconcile_page_valid_ids[OF valid, of job_env 50 store_a "(db_three, initial_result, [])"]
  obtain d1 r1 ids1 where page: "reconcile_page job_env 50 store_a ?ps (db_three, initial_result, [])
        = (None, (d1, r1, ids1))"
    by (metis prod_cases3)
  have "reconcile_walk (Suc 0) job_env 50 store_a ?c 1 (db_three, initial_result, [])
        = Some (None, (d1, r1, ids1))"
    by (simp add: job_env_pages(3) page del: reconcile_page.simps)
  then have walk: "reconcile_walk 1 job_env 50 store_a ?c 1 (db_three, initial_result, [])
        = Some (None, (d1, r1, ids1))"
    by simp
  obtain d' result where fin: "delete_missing 50 (store_merchant_id store_a) ids1
         (local_products d1 (store_merchant_id store_a)) (d1, r1) = (d', result)"
    by (cases "delete_missing 50 (store_merchant_id store_a) ids1
         (local_products d1 (store_merchant_id store_a)) (d1, r1)") auto
  have run: "reconcile_products 1 job_env 50 db_three store_a = Some (d', result)"
    unfolding reconcile_products_def walk by (simp add: fin)
  have u1: "unique_wc_ids d1"
    using reconcile_page_counters[OF page] db_three_facts(1) by blast
  have st: "result_status result = ''completed''"
    using fin reconcile_page_counters[OF page]
    unfolding delete_missing_result[OF u1] by (auto simp: initial_result_def)
  from reconcile_completed_facts[OF db_three_facts(1) run st]
  obtain ps where cat': "remote_catalog 1 job_env ?c 1 = Some ps"
    and del: "products_deleted result
           = int (length (filter (\<lambda>r. merchant_id r = store_merchant_id store_a \<and> is_deleted r = 0
                                      \<and> \<not> seen_in ps (wc_product_id r)) (products db_three)))"
    and gone: "\<forall>r \<in> set (products db_three).
             merchant_id r = store_merchant_id store_a \<and> is_deleted r = 0
             \<and> \<not> seen_in ps (wc_product_id r) \<longrightarrow> mark_deleted 50 r \<in> set (products d')"
    and iff: "\<forall>r \<in> set (products d').
             merchant_id r = store_merchant_id store_a \<longrightarrow>
             (is_deleted r = 0 \<longleftrightarrow> seen_in ps (wc_product_id r))"
    by blast
  have ps: "ps = ?ps" using cat' unfolding cat by simp
  have seen: "seen_in ?ps 7" "seen_in ?ps 8" by (simp_all add: seen_in_def ids)
  have 2: "products_deleted result = 1"
    using del unfolding ps by (simp add: db_three_facts seen unseen)
  have 4: "mark_deleted 50 row_9 \<in> set (products d')"
    using gone[rule_format, of row_9] unfolding ps by (simp add: db_three_facts unseen)
  have 5: "\<not> (\<exists>x \<in> set (products d').
                 wc_product_id x = 9 \<and> merchant_id x = ''merchant-a'' \<and> is_deleted x = 0)"
    using iff unseen unfolding ps by (auto simp: db_three_facts(12))
  have A: "\<exists>d'. reconciliation_job 1 job_env 50 db_three = Some d'
         \<and> (\<exists>x \<in> set (products d').
               wc_product_id x = 9 \<and> merchant_id x = ''merchant-a'' \<and> is_deleted x = 0)"
    using job still by blast
  have B: "\<exists>d' result. reconcile_products 1 job_env 50 db_three store_a = Some (d', result)
         \<and> result_status result = ''completed''
         \<and> products_deleted result = 1
         \<and> mark_deleted 50 row_9 \<in> set (products d')
         \<and> \<not> (\<exists>x \<in> set (products d').
                 wc_product_id x = 9 \<and> merchant_id x = ''merchant-a'' \<and> is_deleted x = 0)"
    using run st 2 4 5 by blast
  show ?thesis
    using r9 db_three_facts(8,5,11) act cat unseen A B by (intro conjI)
qed

section \<open>Credentials\<close>

text \<open>
  Claim C9, as stated, fails: on a token the cipher rejects, \<open>TokenEncryption.decrypt\<close>
  raises ValueError; it does not return null.
\<close>

theorem decrypt_returns_null_counterexample:
  "rejecting_cipher ''gAAAA-corrupted'' = Inl (InvalidToken [])
   \<and> decrypt rejecting_cipher (Some ''gAAAA-corrupted'')
       = Inl (ValueError ''Failed to decrypt credential: '')
   \<and> decrypt rejecting_cipher (Some ''gAAAA-corrupted'') \<noteq> Inr None"
  by (simp add: decrypt_def rejecting_cipher_def)

text \<open>
  Claim C9, amended. On a non-empty ciphertext that the cipher rejects, \<open>decrypt\<close>
  raises ValueError carrying the cause. The read accessors \<open>consumer_key\<close> and
  \<open>consumer_secret\<close> of a store catch it and return null, so a corrupted stored
  credential does not crash a read; they also return null when the cipher itself cannot
  be constructed.
\<close>

theorem decrypt_failure_is_null_at_the_accessor:
  assumes "cipher t = Inl err" and "t \<noteq> []"
  shows "decrypt cipher (Some t)
           = Inl (ValueError (''Failed to decrypt credential: '' @ str_of err))
       \<and> (\<forall>e st. get_encryption e = Inr cipher \<and> consumer_key_col st = Some t
             \<longrightarrow> consumer_key e st = None)
       \<and> (\<forall>e st. get_encryption e = Inr cipher \<and> consumer_secret_col st = Some t
             \<longrightarrow> consumer_secret e st = None)
       \<and> (\<forall>e st err'. get_encryption e = Inl err'
             \<longrightarrow> consumer_key e st = None \<and> consumer_secret e st = None)"
  using assms
  by (auto simp: decrypt_def consumer_key_def consumer_secret_def read_credential_def
           split: option.splits)

theorem decrypt_failure_is_null_at_the_accessor_witness:
  "rejecting_cipher ''gAAAA-key-a'' = Inl (InvalidToken [])
   \<and> ''gAAAA-key-a'' \<noteq> []
   \<and> get_encryption corrupt_env = Inr rejecting_cipher
   \<and> consumer_key_col store_a = Some ''gAAAA-key-a''
   \<and> decrypt rejecting_cipher (Some ''gAAAA-key-a'')
       = Inl (ValueError ''Failed to decrypt credential: '')
   \<and> consumer_key corrupt_env store_a = None"
proof -
  have a: "rejecting_cipher ''gAAAA-key-a'' = Inl (InvalidToken [])"
    by (simp add: rejecting_cipher_def)
  have b: "''gAAAA-key-a'' \<noteq> []" by simp
  have c: "get_encryption corrupt_env = Inr rejecting_cipher"
    by (simp add: corrupt_env_def)
  have d: "consumer_key_col store_a = Some ''gAAAA-key-a''" by (simp add: store_a_def)
  note T = decrypt_failure_is_null_at_the_accessor[of rejecting_cipher "''gAAAA-key-a''"
              "InvalidToken []", OF a b]
  have 1: "decrypt rejecting_cipher (Some ''gAAAA-key-a'')
       = Inl (ValueError ''Failed to decrypt credential: '')"
    using T[THEN conjunct1] by simp
  have 2: "consumer_key corrupt_env store_a = None"
    using T[THEN conjunct2, THEN conjunct1, rule_format, of corrupt_env store_a] c d by simp
  show ?thesis using a b c d 1 2 by (intro conjI)
qed

end
